theory Spec2Isabelle
  imports Main "HOL-Library.Sublist" "HOL-Library.Product_Lexorder"
begin

text \<open>
  A shallow embedding of the core of Patch Studio, a unified-diff patch engine written in
  Python: the normalizer, the parser, the hunk locator and applier, preflight and
  preview, the start of the disk apply, and the diff generator. Each definition follows
  the source function it is named after; the properties of the specification are
  stated and settled in the last section.
\<close>


section \<open>Python strings\<close>

text \<open>
  A Python \<open>str\<close> is a sequence of Unicode code points, so a string is a list of
  code points (natural numbers); \<open>len\<close> is \<open>length\<close>. File contents read with
  \<open>read_bytes\<close> are byte strings, modelled as lists of 8-bit characters. The string
  functions below are polymorphic and serve both.
\<close>

type_synonym codepoint = nat
type_synonym pystr = "codepoint list"

definition u :: "string \<Rightarrow> pystr" where
  "u s = map of_char s"

definition LF :: codepoint where "LF = 10"
definition CR :: codepoint where "CR = 13"
definition TAB :: codepoint where "TAB = 9"
definition SPACE :: codepoint where "SPACE = 32"
definition BOM :: codepoint where "BOM = 0xFEFF"

text \<open>\<open>s.startswith(p)\<close> and \<open>s.endswith(p)\<close>.\<close>

definition startswith :: "'a list \<Rightarrow> 'a list \<Rightarrow> bool" where
  "startswith s p = prefix p s"

definition endswith :: "'a list \<Rightarrow> 'a list \<Rightarrow> bool" where
  "endswith s p = suffix p s"

text \<open>\<open>p in s\<close> for strings: \<open>p\<close> occurs as a contiguous slice of \<open>s\<close>.\<close>

fun contains :: "'a list \<Rightarrow> 'a list \<Rightarrow> bool" where
  "contains [] p = (p = [])"
| "contains (c # cs) p = (prefix p (c # cs) \<or> contains cs p)"

text \<open>
  \<open>s.replace(old, new)\<close>: the occurrences of \<open>old\<close> are found from left to right
  without overlap. With an empty \<open>old\<close> Python puts \<open>new\<close> before every character
  and at the end.
\<close>

function py_replace :: "'a list \<Rightarrow> 'a list \<Rightarrow> 'a list \<Rightarrow> 'a list" where
  "py_replace [] new s = new @ concat (map (\<lambda>c. c # new) s)"
| "py_replace (a # old) new [] = []"
| "py_replace (a # old) new (c # cs) =
     (if prefix (a # old) (c # cs)
      then new @ py_replace (a # old) new (drop (length (a # old)) (c # cs))
      else c # py_replace (a # old) new cs)"
  by pat_completeness auto
termination
  by (relation "measure (\<lambda>(old, new, s). length s)") auto

text \<open>\<open>s.count(sub)\<close> for a non-empty \<open>sub\<close>: the number of non-overlapping occurrences.\<close>

function py_count :: "'a list \<Rightarrow> 'a list \<Rightarrow> int" where
  "py_count [] sub = (if sub = [] then 1 else 0)"
| "py_count (c # cs) [] = 1 + py_count cs []"
| "py_count (c # cs) (a # sub) =
     (if prefix (a # sub) (c # cs)
      then 1 + py_count (drop (length (a # sub)) (c # cs)) (a # sub)
      else py_count cs (a # sub))"
  by pat_completeness auto
termination
  by (relation "measure (\<lambda>(s, sub). length s)") auto

text \<open>\<open>s.split(sep)\<close> for a one-character separator: never an empty list.\<close>

fun py_split :: "'a list \<Rightarrow> 'a \<Rightarrow> 'a list list" where
  "py_split [] sep = [[]]"
| "py_split (c # cs) sep =
     (if c = sep then [] # py_split cs sep
      else (case py_split cs sep of
              [] \<Rightarrow> [[c]]
            | w # ws \<Rightarrow> (c # w) # ws))"

text \<open>\<open>sep.join(xs)\<close>.\<close>

fun py_join :: "'a list \<Rightarrow> 'a list list \<Rightarrow> 'a list" where
  "py_join sep [] = []"
| "py_join sep [x] = x"
| "py_join sep (x # y # ys) = x @ sep @ py_join sep (y # ys)"

text \<open>
  \<open>str.isspace\<close> for one code point; it is also the class \<open>\s\<close> of \<open>re\<close> on
  \<open>str\<close> patterns and the default set of \<open>strip\<close>.
\<close>

definition isspace :: "codepoint \<Rightarrow> bool" where
  "isspace c \<longleftrightarrow>
     (9 \<le> c \<and> c \<le> 13) \<or> (28 \<le> c \<and> c \<le> 32) \<or> c = 0x85 \<or> c = 0xA0 \<or> c = 0x1680 \<or>
     (0x2000 \<le> c \<and> c \<le> 0x200A) \<or> c = 0x2028 \<or> c = 0x2029 \<or> c = 0x202F \<or>
     c = 0x205F \<or> c = 0x3000"

text \<open>\<open>s.lstrip(chars)\<close>, \<open>s.rstrip(chars)\<close> with the set of characters as a predicate.\<close>

definition lstrip_chars :: "('a \<Rightarrow> bool) \<Rightarrow> 'a list \<Rightarrow> 'a list" where
  "lstrip_chars P s = dropWhile P s"

definition rstrip_chars :: "('a \<Rightarrow> bool) \<Rightarrow> 'a list \<Rightarrow> 'a list" where
  "rstrip_chars P s = rev (dropWhile P (rev s))"

definition rstrip :: "pystr \<Rightarrow> pystr" where
  "rstrip s = rstrip_chars isspace s"

definition strip :: "pystr \<Rightarrow> pystr" where
  "strip s = lstrip_chars isspace (rstrip_chars isspace s)"

text \<open>\<open>re.sub(r"\s+", " ", s)\<close>: every maximal run of whitespace becomes one space.\<close>

function collapse_ws :: "pystr \<Rightarrow> pystr" where
  "collapse_ws [] = []"
| "collapse_ws (c # cs) =
     (if isspace c then SPACE # collapse_ws (dropWhile isspace cs)
      else c # collapse_ws cs)"
  by pat_completeness auto
termination
  by (relation "measure length") (auto simp: less_Suc_eq_le length_dropWhile_le)

section \<open>Normalizer (normalizer.py)\<close>

datatype dialect = DIALECT_CLASSIC | DIALECT_GIT | DIALECT_INDEX

text \<open>The \<open>header\<close> dictionary of a block: one of three shapes.\<close>

datatype block_header =
    No_header
  | Diff_git pystr
  | Index_header pystr
  | Classic_header

text \<open>
  A file block is a dictionary with the keys \<open>header\<close>, \<open>text\<close>, \<open>dialect\<close>,
  \<open>index_path\<close>, and \<open>has_binary_indicator\<close> once \<open>normalize\<close> has set it.
\<close>

record block =
  b_header :: block_header
  b_text :: pystr
  b_dialect :: dialect
  b_index_path :: "pystr option"
  b_has_binary_indicator :: "bool option"

definition mk_block :: "block_header \<Rightarrow> pystr list \<Rightarrow> dialect \<Rightarrow> pystr option \<Rightarrow> block" where
  "mk_block h cur d ip =
     \<lparr>b_header = h, b_text = py_join [LF] cur @ [LF], b_dialect = d,
      b_index_path = ip, b_has_binary_indicator = None\<rparr>"

definition BIN_PATTERNS :: "pystr list" where
  "BIN_PATTERNS = [u ''GIT binary patch'', u ''Binary files '']"

definition has_binary_indicator :: "pystr \<Rightarrow> bool" where
  "has_binary_indicator txt = list_ex (\<lambda>pat. contains txt pat) BIN_PATTERNS"

text \<open>\<open>_split_git_blocks\<close>: the loop over the lines, with \<open>blocks\<close>, \<open>cur\<close>, \<open>cur_header\<close>.\<close>

fun split_git_loop :: "pystr list \<Rightarrow> block list \<Rightarrow> pystr list \<Rightarrow> block_header \<Rightarrow> block list" where
  "split_git_loop [] blocks cur cur_header =
     (if cur \<noteq> [] then blocks @ [mk_block cur_header cur DIALECT_GIT None] else blocks)"
| "split_git_loop (line # rest) blocks cur cur_header =
     (if startswith line (u ''diff --git '') then
        split_git_loop rest
          (if cur \<noteq> [] then blocks @ [mk_block cur_header cur DIALECT_GIT None] else blocks)
          [line] (Diff_git line)
      else if cur \<noteq> [] then split_git_loop rest blocks (cur @ [line]) cur_header
      else split_git_loop rest blocks cur cur_header)"

definition split_git_blocks :: "pystr \<Rightarrow> block list" where
  "split_git_blocks txt = split_git_loop (py_split txt LF) [] [] No_header"

text \<open>\<open>_split_index_blocks\<close>, with \<open>cur_index_path\<close> as a further loop variable.\<close>

fun split_index_loop ::
  "pystr list \<Rightarrow> block list \<Rightarrow> pystr list \<Rightarrow> block_header \<Rightarrow> pystr option \<Rightarrow> block list" where
  "split_index_loop [] blocks cur cur_header cur_index_path =
     (if cur \<noteq> [] then blocks @ [mk_block cur_header cur DIALECT_INDEX cur_index_path]
      else blocks)"
| "split_index_loop (line # rest) blocks cur cur_header cur_index_path =
     (if startswith line (u ''Index: '') then
        split_index_loop rest
          (if cur \<noteq> [] then blocks @ [mk_block cur_header cur DIALECT_INDEX cur_index_path]
           else blocks)
          [line]
          (Index_header (strip (drop (length (u ''Index: '')) line)))
          (Some (strip (drop (length (u ''Index: '')) line)))
      else if cur \<noteq> [] then
        split_index_loop rest blocks (cur @ [line]) cur_header cur_index_path
      else split_index_loop rest blocks cur cur_header cur_index_path)"

definition split_index_blocks :: "pystr \<Rightarrow> block list" where
  "split_index_blocks txt = split_index_loop (py_split txt LF) [] [] No_header None"

text \<open>
  \<open>_split_classic_blocks\<close>. The inner loop looks ahead from \<open>j = i + 1\<close> while
  \<open>j < min(i + 60, len(lines))\<close> and sets \<open>found_ppp\<close>; the outer loop runs \<open>i\<close>
  over the lines.
\<close>

function find_ppp :: "pystr list \<Rightarrow> nat \<Rightarrow> nat \<Rightarrow> bool" where
  "find_ppp lns j lim =
     (if j < lim then
        (if startswith (lns ! j) (u ''+++ '') then True
         else if startswith (lns ! j) (u ''@@ '') then False
         else find_ppp lns (j + 1) lim)
      else False)"
  by pat_completeness auto
termination
  by (relation "measure (\<lambda>(lns, j, lim). lim - j)") auto

declare find_ppp.simps [simp del]

function split_classic_loop ::
  "pystr list \<Rightarrow> nat \<Rightarrow> block list \<Rightarrow> pystr list \<Rightarrow> block_header \<Rightarrow> block list" where
  "split_classic_loop lns i blocks cur cur_header =
     (if i < length lns then
        (if startswith (lns ! i) (u ''--- '') then
           (if find_ppp lns (i + 1) (min (i + 60) (length lns)) then
              split_classic_loop lns (i + 1)
                (if cur \<noteq> [] then blocks @ [mk_block cur_header cur DIALECT_CLASSIC None]
                 else blocks)
                [lns ! i] Classic_header
            else if cur \<noteq> [] then
              split_classic_loop lns (i + 1) blocks (cur @ [lns ! i]) cur_header
            else split_classic_loop lns (i + 1) blocks cur cur_header)
         else if cur \<noteq> [] then
           split_classic_loop lns (i + 1) blocks (cur @ [lns ! i]) cur_header
         else split_classic_loop lns (i + 1) blocks cur cur_header)
      else (if cur \<noteq> [] then blocks @ [mk_block cur_header cur DIALECT_CLASSIC None]
            else blocks))"
  by pat_completeness auto
termination
  by (relation "measure (\<lambda>(lns, i, blocks, cur, cur_header). length lns - i)") auto

declare split_classic_loop.simps [simp del]

definition split_classic_blocks :: "pystr \<Rightarrow> block list" where
  "split_classic_blocks txt = split_classic_loop (py_split txt LF) 0 [] [] No_header"

text \<open>
  \<open>PatchInputNormalizer.normalize\<close> (here \<open>normalize_input\<close>): BOM, line endings, dialect, blocks, and the binary flag of each block.
  \<open>normalize_text\<close> is the text after the first two steps (the first component of the
  result).
\<close>

definition normalize_text :: "pystr \<Rightarrow> pystr" where
  "normalize_text raw_text =
     py_replace [CR] [LF]
       (py_replace [CR, LF] [LF]
          (if startswith raw_text [BOM] then lstrip_chars (\<lambda>c. c = BOM) raw_text
           else raw_text))"

definition normalize_input :: "pystr \<Rightarrow> pystr \<times> dialect \<times> block list" where
  "normalize_input raw_text0 =
     (let raw_text = normalize_text raw_text0;
          lns = py_split raw_text LF;
          has_hunk = list_ex (\<lambda>l. startswith l (u ''@@'')) lns;
          has_git = list_ex (\<lambda>l. startswith l (u ''diff --git '')) lns;
          has_index = list_ex (\<lambda>l. startswith l (u ''Index: '')) lns;
          has_headers = (list_ex (\<lambda>l. startswith l (u ''--- '')) lns \<and>
                         list_ex (\<lambda>l. startswith l (u ''+++ '')) lns);
          dialect =
            (if has_git then DIALECT_GIT
             else if has_index then DIALECT_INDEX
             else if has_headers \<and> has_hunk then DIALECT_CLASSIC
             else if has_hunk then DIALECT_CLASSIC
             else DIALECT_CLASSIC);
          file_blocks =
            (if has_git then split_git_blocks raw_text
             else if has_index then split_index_blocks raw_text
             else split_classic_blocks raw_text)
      in (raw_text, dialect,
          map (\<lambda>b. b\<lparr>b_has_binary_indicator := Some (has_binary_indicator (b_text b))\<rparr>)
            file_blocks))"

section \<open>Data model (models.py)\<close>

record hunk =
  old_start :: int
  old_count :: int
  new_start :: int
  new_count :: int
  header :: pystr
  lines :: "(pystr \<times> pystr) list"

datatype operation = Modify | Create | Delete | Rename

text \<open>
  The metadata dictionary has string keys; its values are strings, or \<open>None\<close> for an
  absent index path. \<open>md_get\<close> is \<open>metadata.get(key)\<close> and \<open>truthy\<close> is Python's truth
  value of the result.
\<close>

datatype pyval = PyNone | PyStr pystr

type_synonym metadata = "string \<rightharpoonup> pyval"

definition md_get :: "metadata \<Rightarrow> string \<Rightarrow> pyval" where
  "md_get m k = (case m k of None \<Rightarrow> PyNone | Some v \<Rightarrow> v)"

fun truthy :: "pyval \<Rightarrow> bool" where
  "truthy PyNone = False"
| "truthy (PyStr s) = (s \<noteq> [])"

record filepatch =
  old_path :: pystr
  new_path :: pystr
  display_path :: pystr
  operation :: operation
  hunks :: "hunk list"
  is_binary :: bool
  binary_reason :: pystr
  metadata :: metadata

record patchset =
  dialect :: dialect
  files :: "filepatch list"

section \<open>Parser (parser.py)\<close>

definition DEV_NULL :: pystr where
  "DEV_NULL = u ''/dev/null''"

definition strip_prefix_ab :: "pystr \<Rightarrow> pystr" where
  "strip_prefix_ab p0 =
     (let p = strip p0 in
      if startswith p (u ''a/'') \<and> length p > 2 then drop 2 p
      else if startswith p (u ''b/'') \<and> length p > 2 then drop 2 p
      else p)"

definition parse_path_from_header_line :: "pystr \<Rightarrow> pystr \<Rightarrow> pystr" where
  "parse_path_from_header_line line pfx =
     (let rest = drop (length pfx) line in
      if TAB \<in> set rest then strip (takeWhile (\<lambda>c. c \<noteq> TAB) rest)
      else strip rest)"

definition infer_operation :: "pystr \<Rightarrow> pystr \<Rightarrow> metadata \<Rightarrow> operation" where
  "infer_operation old_p new_p md =
     (if truthy (md_get md ''new_file_mode'') \<or> old_p = DEV_NULL then Create
      else if truthy (md_get md ''deleted_file_mode'') \<or> new_p = DEV_NULL then Delete
      else if truthy (md_get md ''rename_from'') \<or> truthy (md_get md ''rename_to'') then Rename
      else if old_p \<noteq> new_p \<and> old_p \<noteq> DEV_NULL \<and> new_p \<noteq> DEV_NULL then Rename
      else Modify)"

text \<open>
  The class \<open>\d\<close> of \<open>re\<close> and the digits \<open>int\<close> reads are the Unicode decimal
  digits: 66 runs of ten code points (Unicode 14), each starting at the listed zero.
  \<open>py_int\<close> is \<open>int(s)\<close> on a string of such digits; the interpreter's limit on the
  number of digits is not modelled.
\<close>

definition decimal_zeros :: "codepoint list" where
  "decimal_zeros =
    [0x30, 0x660, 0x6f0, 0x7c0, 0x966, 0x9e6, 0xa66, 0xae6, 0xb66, 0xbe6, 0xc66, 0xce6,
     0xd66, 0xde6, 0xe50, 0xed0, 0xf20, 0x1040, 0x1090, 0x17e0, 0x1810, 0x1946, 0x19d0,
     0x1a80, 0x1a90, 0x1b50, 0x1bb0, 0x1c40, 0x1c50, 0xa620, 0xa8d0, 0xa900, 0xa9d0,
     0xa9f0, 0xaa50, 0xabf0, 0xff10, 0x104a0, 0x10d30, 0x11066, 0x110f0, 0x11136,
     0x111d0, 0x112f0, 0x11450, 0x114d0, 0x11650, 0x116c0, 0x11730, 0x118e0, 0x11950,
     0x11c50, 0x11d50, 0x11da0, 0x16a60, 0x16ac0, 0x16b50, 0x1d7ce, 0x1d7d8, 0x1d7e2,
     0x1d7ec, 0x1d7f6, 0x1e140, 0x1e2f0, 0x1e950, 0x1fbf0]"

definition decimal_value :: "codepoint \<Rightarrow> nat option" where
  "decimal_value c =
     (case find (\<lambda>z. z \<le> c \<and> c < z + 10) decimal_zeros of
        None \<Rightarrow> None
      | Some z \<Rightarrow> Some (c - z))"

definition isdecimal :: "codepoint \<Rightarrow> bool" where
  "isdecimal c = (decimal_value c \<noteq> None)"

definition py_int :: "pystr \<Rightarrow> int" where
  "py_int s = foldl (\<lambda>acc c. acc * 10 + int (case decimal_value c of None \<Rightarrow> 0 | Some d \<Rightarrow> d)) 0 s"

text \<open>
  \<open>RE_HUNK.match(ln)\<close> for
  \<open>^@@\s+\-(\d+)(?:,(\d+))?\s+\+(\d+)(?:,(\d+))?\s+@@(.*)$\<close>: the five groups, or
  \<open>None\<close>. No alternative of the expression overlaps the one after it, so the match
  is found without backtracking. \<open>.\<close> does not match a line feed and \<open>$\<close> also
  matches before a final line feed.
\<close>

definition re_opt_count :: "pystr \<Rightarrow> pystr option \<times> pystr" where
  "re_opt_count s =
     (if startswith s (u '','') \<and> takeWhile isdecimal (drop 1 s) \<noteq> []
      then (Some (takeWhile isdecimal (drop 1 s)), dropWhile isdecimal (drop 1 s))
      else (None, s))"

definition RE_HUNK_match ::
  "pystr \<Rightarrow> (pystr \<times> pystr option \<times> pystr \<times> pystr option \<times> pystr) option" where
  "RE_HUNK_match ln =
     (if \<not> startswith ln (u ''@@'') then None else
      let r1 = drop 2 ln in
      if takeWhile isspace r1 = [] then None else
      let r2 = dropWhile isspace r1 in
      if \<not> startswith r2 (u ''-'') then None else
      let g1 = takeWhile isdecimal (drop 1 r2) in
      if g1 = [] then None else
      let (g2, r5) = re_opt_count (dropWhile isdecimal (drop 1 r2)) in
      if takeWhile isspace r5 = [] then None else
      let r6 = dropWhile isspace r5 in
      if \<not> startswith r6 (u ''+'') then None else
      let g3 = takeWhile isdecimal (drop 1 r6) in
      if g3 = [] then None else
      let (g4, r9) = re_opt_count (dropWhile isdecimal (drop 1 r6)) in
      if takeWhile isspace r9 = [] then None else
      let r10 = dropWhile isspace r9 in
      if \<not> startswith r10 (u ''@@'') then None else
      let t = drop 2 r10 in
      if LF \<notin> set t then Some (g1, g2, g3, g4, t)
      else if last t = LF \<and> LF \<notin> set (butlast t) then Some (g1, g2, g3, g4, butlast t)
      else None)"

text \<open>
  \<open>_parse_hunks_from\<close>: every pass of the loop moves to the next line, so the loop is
  a recursion over the lines with \<open>hunks\<close> and \<open>current\<close>.
\<close>

definition NO_NEWLINE_MARKER :: pystr where
  "NO_NEWLINE_MARKER = 92 # u '' No newline at end of file''"

definition add_line :: "hunk \<Rightarrow> pystr \<times> pystr \<Rightarrow> hunk" where
  "add_line h entry = h\<lparr>lines := lines h @ [entry]\<rparr>"

fun parse_hunks_loop :: "pystr list \<Rightarrow> hunk list \<Rightarrow> hunk option \<Rightarrow> hunk list" where
  "parse_hunks_loop [] hs current =
     (case current of None \<Rightarrow> hs | Some c \<Rightarrow> hs @ [c])"
| "parse_hunks_loop (ln # rest) hs current =
     (case RE_HUNK_match ln of
        Some (g1, g2, g3, g4, g5) \<Rightarrow>
          parse_hunks_loop rest
            (case current of None \<Rightarrow> hs | Some c \<Rightarrow> hs @ [c])
            (Some \<lparr>old_start = py_int g1,
                   old_count = (case g2 of None \<Rightarrow> 1 | Some d \<Rightarrow> py_int d),
                   new_start = py_int g3,
                   new_count = (case g4 of None \<Rightarrow> 1 | Some d \<Rightarrow> py_int d),
                   header = strip ln, lines = []\<rparr>)
      | None \<Rightarrow>
          (case current of
             None \<Rightarrow> parse_hunks_loop rest hs current
           | Some c \<Rightarrow>
               if startswith ln NO_NEWLINE_MARKER then parse_hunks_loop rest hs current
               else if ln = [] then parse_hunks_loop rest hs (Some (add_line c (u '' '', [])))
               else if [hd ln] = u '' '' \<or> [hd ln] = u ''+'' \<or> [hd ln] = u ''-''
                 then parse_hunks_loop rest hs (Some (add_line c ([hd ln], tl ln)))
               else parse_hunks_loop rest hs (Some (add_line c (u '' '', ln)))))"

definition parse_hunks_from :: "pystr list \<Rightarrow> hunk list" where
  "parse_hunks_from lns = parse_hunks_loop lns [] None"

text \<open>
  \<open>RE_DIFF_GIT.match(line)\<close> for \<open>^diff --git (.+?) (.+?)\s*$\<close>, on a line without
  line feed (the parser's lines come from a split on the line feed): the first group
  is the shortest non-empty text before a space that has something after it, the
  second group the shortest non-empty text that leaves only whitespace.
\<close>

definition RE_DIFF_GIT_match :: "pystr \<Rightarrow> (pystr \<times> pystr) option" where
  "RE_DIFF_GIT_match ln =
     (if \<not> startswith ln (u ''diff --git '') then None
      else (case drop (length (u ''diff --git '')) ln of
              [] \<Rightarrow> None
            | c # cs \<Rightarrow>
                (case dropWhile (\<lambda>x. x \<noteq> SPACE) cs of
                   [] \<Rightarrow> None
                 | sp # r \<Rightarrow>
                     if r = [] then None
                     else Some (c # takeWhile (\<lambda>x. x \<noteq> SPACE) cs,
                                take (max 1 (length (rstrip r))) r))))"

text \<open>
  The binary indicator loop at the head of each block parser returns at the first
  line that starts with one of the two patterns; the result is the reason it gives.
\<close>

definition binary_reason_of :: "pystr list \<Rightarrow> pystr option" where
  "binary_reason_of lns =
     (case find (\<lambda>ln. startswith ln (u ''GIT binary patch'') \<or>
                       startswith ln (u ''Binary files '')) lns of
        None \<Rightarrow> None
      | Some ln \<Rightarrow>
          if startswith ln (u ''GIT binary patch'') then Some (u ''GIT binary patch unsupported'')
          else Some (u ''Binary files differ (unsupported)''))"

definition path_or_devnull :: "pystr \<Rightarrow> pystr" where
  "path_or_devnull hdr = (if hdr \<noteq> DEV_NULL then strip_prefix_ab hdr else DEV_NULL)"

text \<open>
  The search loops \<open>while i < len(lines)\<close> that stop after the first line with a given
  prefix: the path of that line and the index after it, or \<open>None\<close> and \<open>len(lines)\<close>.
\<close>

function find_header_from :: "pystr list \<Rightarrow> nat \<Rightarrow> pystr \<Rightarrow> pystr option \<times> nat" where
  "find_header_from lns i pfx =
     (if i < length lns then
        (if startswith (lns ! i) pfx then (Some (parse_path_from_header_line (lns ! i) pfx), i + 1)
         else find_header_from lns (i + 1) pfx)
      else (None, i))"
  by pat_completeness auto
termination
  by (relation "measure (\<lambda>(lns, i, pfx). length lns - i)") auto

declare find_header_from.simps [simp del]

text \<open>The metadata loop of \<open>_parse_git_block\<close>; it stops after the first \<open>---\<close> line.\<close>

function git_metadata_loop ::
  "pystr list \<Rightarrow> nat \<Rightarrow> metadata \<Rightarrow> metadata \<times> pystr option \<times> nat" where
  "git_metadata_loop lns i md =
     (if i < length lns then
        (if startswith (lns ! i) (u ''index '') then
           git_metadata_loop lns (i + 1) (md(''index'' \<mapsto> PyStr (strip (lns ! i))))
         else if startswith (lns ! i) (u ''old mode '') then
           git_metadata_loop lns (i + 1) (md(''old_mode'' \<mapsto> PyStr (strip (lns ! i))))
         else if startswith (lns ! i) (u ''new mode '') then
           git_metadata_loop lns (i + 1) (md(''new_mode'' \<mapsto> PyStr (strip (lns ! i))))
         else if startswith (lns ! i) (u ''new file mode '') then
           git_metadata_loop lns (i + 1) (md(''new_file_mode'' \<mapsto> PyStr (strip (lns ! i))))
         else if startswith (lns ! i) (u ''deleted file mode '') then
           git_metadata_loop lns (i + 1) (md(''deleted_file_mode'' \<mapsto> PyStr (strip (lns ! i))))
         else if startswith (lns ! i) (u ''similarity index '') then
           git_metadata_loop lns (i + 1) (md(''similarity_index'' \<mapsto> PyStr (strip (lns ! i))))
         else if startswith (lns ! i) (u ''rename from '') then
           git_metadata_loop lns (i + 1)
             (md(''rename_from'' \<mapsto> PyStr (strip (drop (length (u ''rename from '')) (lns ! i)))))
         else if startswith (lns ! i) (u ''rename to '') then
           git_metadata_loop lns (i + 1)
             (md(''rename_to'' \<mapsto> PyStr (strip (drop (length (u ''rename to '')) (lns ! i)))))
         else if startswith (lns ! i) (u ''--- '') then
           (md, Some (parse_path_from_header_line (lns ! i) (u ''--- '')), i + 1)
         else git_metadata_loop lns (i + 1) md)
      else (md, None, i))"
  by pat_completeness auto
termination
  by (relation "measure (\<lambda>(lns, i, md). length lns - i)") auto

declare git_metadata_loop.simps [simp del]

definition parse_git_block :: "pystr list \<Rightarrow> filepatch option" where
  "parse_git_block lns =
     (case RE_DIFF_GIT_match (case lns of [] \<Rightarrow> [] | l # _ \<Rightarrow> l) of
        None \<Rightarrow> None
      | Some (g1, g2) \<Rightarrow>
          (let a_path = strip g1; b_path = strip g2;
               md0 = [''diff_git'' \<mapsto> PyStr (hd lns)];
               old_path0 = strip_prefix_ab a_path;
               new_path0 = strip_prefix_ab b_path
           in case binary_reason_of lns of
                Some reason \<Rightarrow>
                  Some \<lparr>old_path = old_path0, new_path = new_path0,
                        display_path =
                          strip_prefix_ab (if new_path0 \<noteq> [] then new_path0 else old_path0),
                        operation = Modify, hunks = [], is_binary = True,
                        binary_reason = reason, metadata = md0\<rparr>
              | None \<Rightarrow>
                  (let (md, old_hdr, i1) = git_metadata_loop lns 1 md0;
                       (new_hdr, i) =
                         (if old_hdr \<noteq> None then find_header_from lns i1 (u ''+++ '')
                          else (None, i1));
                       old_p = (case old_hdr of None \<Rightarrow> old_path0 | Some h \<Rightarrow> path_or_devnull h);
                       new_p = (case new_hdr of None \<Rightarrow> new_path0 | Some h \<Rightarrow> path_or_devnull h)
                   in Some \<lparr>old_path = old_p, new_path = new_p,
                            display_path =
                              strip_prefix_ab (if new_p \<noteq> DEV_NULL then new_p else old_p),
                            operation = infer_operation old_p new_p md,
                            hunks = parse_hunks_from (drop i lns),
                            is_binary = False, binary_reason = [], metadata = md\<rparr>)))"

definition parse_index_block :: "pystr list \<Rightarrow> pystr option \<Rightarrow> filepatch option" where
  "parse_index_block lns index_path =
     (let md = [''index_path'' \<mapsto> (case index_path of None \<Rightarrow> PyNone | Some p \<Rightarrow> PyStr p)]
      in case binary_reason_of lns of
           Some reason \<Rightarrow>
             (let display = (case index_path of
                               None \<Rightarrow> u ''(unknown)''
                             | Some p \<Rightarrow> if p \<noteq> [] then p else u ''(unknown)'')
              in Some \<lparr>old_path = display, new_path = display, display_path = display,
                       operation = Modify, hunks = [], is_binary = True,
                       binary_reason = reason, metadata = md\<rparr>)
         | None \<Rightarrow>
             (case find_header_from lns 0 (u ''--- '') of
                (None, _) \<Rightarrow> None
              | (Some old_hdr, i1) \<Rightarrow>
                  (case find_header_from lns i1 (u ''+++ '') of
                     (None, _) \<Rightarrow> None
                   | (Some new_hdr, i) \<Rightarrow>
                       (let old_p = path_or_devnull old_hdr; new_p = path_or_devnull new_hdr
                        in Some \<lparr>old_path = old_p, new_path = new_p,
                                 display_path =
                                   strip_prefix_ab (if new_p \<noteq> DEV_NULL then new_p else old_p),
                                 operation = infer_operation old_p new_p md,
                                 hunks = parse_hunks_from (drop i lns),
                                 is_binary = False, binary_reason = [], metadata = md\<rparr>))))"

text \<open>
  \<open>_parse_classic_block\<close>: when the first line is no \<open>---\<close> header the lines before
  the first one are dropped; the \<open>+++\<close> search then starts at the second line.
\<close>

definition parse_classic_block :: "pystr list \<Rightarrow> filepatch option" where
  "parse_classic_block lns0 =
     (case binary_reason_of lns0 of
        Some reason \<Rightarrow>
          Some \<lparr>old_path = u ''(unknown)'', new_path = u ''(unknown)'',
                display_path = u ''(unknown)'', operation = Modify, hunks = [],
                is_binary = True, binary_reason = reason, metadata = Map.empty\<rparr>
      | None \<Rightarrow>
          (case dropWhile (\<lambda>l. \<not> startswith l (u ''--- '')) lns0 of
             [] \<Rightarrow> None
           | l0 # rest \<Rightarrow>
               (let lns = l0 # rest;
                    old_p = path_or_devnull (parse_path_from_header_line l0 (u ''--- ''))
                in case find_header_from lns 1 (u ''+++ '') of
                     (None, _) \<Rightarrow> None
                   | (Some new_hdr, i) \<Rightarrow>
                       (let new_p = path_or_devnull new_hdr
                        in Some \<lparr>old_path = old_p, new_path = new_p,
                                 display_path =
                                   strip_prefix_ab (if new_p \<noteq> DEV_NULL then new_p else old_p),
                                 operation = infer_operation old_p new_p Map.empty,
                                 hunks = parse_hunks_from (drop i lns),
                                 is_binary = False, binary_reason = [],
                                 metadata = Map.empty\<rparr>))))"

text \<open>\<open>UnifiedDiffParser.parse\<close>: the blocks that yield no file patch are skipped.\<close>

definition parse_block :: "dialect \<Rightarrow> block \<Rightarrow> filepatch option" where
  "parse_block d b =
     (let lns = py_split (b_text b) LF in
      if d = DIALECT_GIT then parse_git_block lns
      else if d = DIALECT_INDEX then parse_index_block lns (b_index_path b)
      else parse_classic_block lns)"

definition parse :: "dialect \<Rightarrow> block list \<Rightarrow> patchset" where
  "parse d file_blocks = \<lparr>dialect = d, files = List.map_filter (parse_block d) file_blocks\<rparr>"

section \<open>Applier: locating and applying hunks in memory (applier.py)\<close>

text \<open>
  The options dictionary as a record of the values the code reads with
  \<open>bool(options.get(key, default))\<close> and \<open>int(options.get(key, 200))\<close>; a caller
  that leaves a key out passes the default.
\<close>

record options =
  strict_filename_match :: bool
  best_effort_fuzzy_apply :: bool
  fuzzy_window_size :: int
  ignore_whitespace_differences :: bool
  conflict_marker_mode :: bool
  allow_rename_delete_mode_changes :: bool
  partial_apply_per_file_override :: bool
  preserve_original_line_endings :: bool
  allow_writing_conflicted_output :: bool
  skip_unsupported_binary_files :: bool

definition normalize_match_line :: "pystr \<Rightarrow> bool \<Rightarrow> pystr" where
  "normalize_match_line s ignore_ws =
     (let s1 = rstrip_chars (\<lambda>c. c = CR \<or> c = LF) s;
          s2 = rstrip s1
      in if ignore_ws then collapse_ws s2 else s2)"

definition count_tag :: "(pystr \<times> pystr) list \<Rightarrow> pystr \<Rightarrow> int" where
  "count_tag hunk_lines tag = int (length (filter (\<lambda>(t, _). t = tag) hunk_lines))"

text \<open>\<open>_hunk_anchors_match\<close>: the loop over \<open>seq\<close> with the index \<open>idx\<close>.\<close>

definition anchor_seq :: "hunk \<Rightarrow> (pystr \<times> pystr) list" where
  "anchor_seq h = filter (\<lambda>(t, s). t = u '' '' \<or> t = u ''-'') (lines h)"

fun anchors_loop :: "pystr list \<Rightarrow> nat \<Rightarrow> (pystr \<times> pystr) list \<Rightarrow> bool \<Rightarrow> bool" where
  "anchors_loop lns idx [] ignore_ws = True"
| "anchors_loop lns idx ((t, s) # seq) ignore_ws =
     (if idx \<ge> length lns then False
      else if normalize_match_line s ignore_ws \<noteq> normalize_match_line (lns ! idx) ignore_ws
        then False
      else anchors_loop lns (idx + 1) seq ignore_ws)"

definition hunk_anchors_match :: "pystr list \<Rightarrow> hunk \<Rightarrow> int \<Rightarrow> bool \<Rightarrow> bool" where
  "hunk_anchors_match lns h pos ignore_ws =
     (if anchor_seq h = [] then True
      else if pos < 0 \<or> pos > int (length lns) then False
      else anchors_loop lns (nat pos) (anchor_seq h) ignore_ws)"

text \<open>The decision dictionary of \<open>_locate_hunk_position\<close>; an absent key is \<open>None\<close>.\<close>

datatype locate_mode = Strict | Fuzzy

record decision =
  d_mode :: locate_mode
  d_expected_pos :: int
  d_matched_at :: "int option"
  d_reason :: "pystr option"
  d_delta_from_expected :: "int option"
  d_candidates :: "nat option"
  d_ambiguity :: "pystr option"

definition fuzzy_candidates :: "pystr list \<Rightarrow> hunk \<Rightarrow> int \<Rightarrow> bool \<Rightarrow> int \<Rightarrow> int list" where
  "fuzzy_candidates lns h pos ignore_ws fuzzy_window =
     filter (\<lambda>p. hunk_anchors_match lns h p ignore_ws)
       [max 0 (pos - fuzzy_window) .. min (int (length lns)) (pos + fuzzy_window)]"

definition locate_hunk_position ::
  "pystr list \<Rightarrow> hunk \<Rightarrow> int \<Rightarrow> bool \<Rightarrow> bool \<Rightarrow> int \<Rightarrow> int option \<times> decision" where
  "locate_hunk_position lns h expected_pos ignore_ws fuzzy fuzzy_window =
     (let decision0 = \<lparr>d_mode = Strict, d_expected_pos = expected_pos, d_matched_at = None,
                        d_reason = None, d_delta_from_expected = None, d_candidates = None,
                        d_ambiguity = None\<rparr>;
          pos = min (max expected_pos 0) (int (length lns))
      in if hunk_anchors_match lns h pos ignore_ws then
           (Some pos, decision0\<lparr>d_matched_at := Some pos\<rparr>)
         else if \<not> fuzzy then
           (None, decision0\<lparr>d_mode := Strict,
                            d_reason := Some (u ''Anchors did not match at expected location.'')\<rparr>)
         else
           (let candidates = fuzzy_candidates lns h pos ignore_ws fuzzy_window in
            if candidates = [] then
              (None, decision0\<lparr>d_mode := Fuzzy,
                               d_reason := Some (u ''No anchor match found within fuzzy window.'')\<rparr>)
            else
              (let sorted_c = sort_key (\<lambda>x. (\<bar>x - pos\<bar>, x)) candidates;
                   chosen = hd sorted_c
               in (Some chosen,
                   decision0\<lparr>d_mode := Fuzzy, d_matched_at := Some chosen,
                             d_delta_from_expected := Some (chosen - pos),
                             d_candidates := Some (length sorted_c),
                             d_ambiguity :=
                               (if length sorted_c > 1 \<and>
                                   \<bar>sorted_c ! 0 - pos\<bar> = \<bar>sorted_c ! 1 - pos\<bar>
                                then Some (u ''Multiple equally-close matches; deterministic tie-break by earliest.'')
                                else None)\<rparr>))))"

text \<open>
  \<open>_apply_hunk_at\<close>. The position is a natural number: the callers pass the position
  that \<open>_locate_hunk_position\<close> returned, which is never negative. The loop over the
  hunk lines carries the read index \<open>i\<close> and the new list \<open>out\<close>; a mismatch leaves
  the loop with the mismatch dictionary.
\<close>

datatype mismatch_info =
    Context_beyond_EOF nat
  | Context_mismatch nat pystr pystr
  | Deletion_beyond_EOF nat
  | Deletion_mismatch nat pystr pystr

fun apply_hunk_loop ::
  "pystr list \<Rightarrow> bool \<Rightarrow> (pystr \<times> pystr) list \<Rightarrow> nat \<Rightarrow> pystr list \<Rightarrow>
   mismatch_info + (nat \<times> pystr list)" where
  "apply_hunk_loop lns ignore_ws [] i out = Inr (i, out)"
| "apply_hunk_loop lns ignore_ws ((t, s) # rest) i out =
     (if t = u '' '' then
        (if i \<ge> length lns then Inl (Context_beyond_EOF i)
         else if normalize_match_line s ignore_ws \<noteq> normalize_match_line (lns ! i) ignore_ws
           then Inl (Context_mismatch i s (lns ! i))
         else apply_hunk_loop lns ignore_ws rest (i + 1) (out @ [lns ! i]))
      else if t = u ''-'' then
        (if i \<ge> length lns then Inl (Deletion_beyond_EOF i)
         else if normalize_match_line s ignore_ws \<noteq> normalize_match_line (lns ! i) ignore_ws
           then Inl (Deletion_mismatch i s (lns ! i))
         else apply_hunk_loop lns ignore_ws rest (i + 1) out)
      else if t = u ''+'' then apply_hunk_loop lns ignore_ws rest i (out @ [s])
      else apply_hunk_loop lns ignore_ws rest i out)"

definition apply_hunk_at ::
  "pystr list \<Rightarrow> hunk \<Rightarrow> nat \<Rightarrow> bool \<Rightarrow> bool \<times> pystr list \<times> int \<times> mismatch_info option" where
  "apply_hunk_at lns h pos ignore_ws =
     (case apply_hunk_loop lns ignore_ws (lines h) pos (take pos lns) of
        Inl mismatch \<Rightarrow> (False, lns, 0, Some mismatch)
      | Inr (i, out) \<Rightarrow>
          (True, out @ drop i lns,
           count_tag (lines h) (u ''+'') - count_tag (lines h) (u ''-''), None))"

text \<open>\<open>_build_mismatch_diag\<close> and \<open>_insert_conflict_markers\<close> (which changes the list it is given: here it returns the new list).\<close>

record diag_entry =
  hunk_index :: nat
  hunk_header :: pystr
  attempted_line_1b :: int
  attempted_pos_0b :: int
  diag_decision :: decision
  expected_excerpt :: "pystr list"
  actual_excerpt :: "pystr list"
  mismatch :: "mismatch_info option"

definition build_mismatch_diag ::
  "pystr list \<Rightarrow> hunk \<Rightarrow> int \<Rightarrow> decision \<Rightarrow> nat \<Rightarrow> mismatch_info option \<Rightarrow> diag_entry" where
  "build_mismatch_diag lns h attempted_pos dec h_idx mm =
     (let excerpt_start = nat (max 0 (attempted_pos - 2));
          excerpt_end = nat (min (int (length lns)) (attempted_pos + 3))
      in \<lparr>hunk_index = h_idx, hunk_header = header h,
           attempted_line_1b = attempted_pos + 1, attempted_pos_0b = attempted_pos,
           diag_decision = dec,
           expected_excerpt = take 5 (map snd (anchor_seq h)),
           actual_excerpt = take (excerpt_end - excerpt_start) (drop excerpt_start lns),
           mismatch = mm\<rparr>)"

definition insert_conflict_markers :: "pystr list \<Rightarrow> int \<Rightarrow> hunk \<Rightarrow> pystr list" where
  "insert_conflict_markers lns pos h =
     (let original_part = map snd (filter (\<lambda>(t, s). t = u '' '' \<or> t = u ''-'') (lines h));
          patch_part = map snd (filter (\<lambda>(t, s). t = u '' '' \<or> t = u ''+'') (lines h));
          markers = [u ''<<<<<<< ORIGINAL''] @ original_part @ [u ''=======''] @ patch_part @
                    [u ''>>>>>>> PATCH''];
          insert_at = nat (min (max pos 0) (int (length lns)))
      in take insert_at lns @ markers @ drop insert_at lns)"

text \<open>
  \<open>_apply_filepatch_in_memory\<close>. An exception is a value that carries its message.
  The text that \<open>Path(resolved_path).read_text\<close> returns, or the exception it raises,
  is an argument; it is read for every operation but \<open>create\<close>. The loop over the hunks
  carries \<open>out_lines\<close>, \<open>line_offset\<close>, \<open>stats\<close> and \<open>diagnostics\<close>; where the
  source returns from inside the loop, the recursion stops with \<open>failed\<close> set, and the
  function returns the same triple from the state in both cases.
\<close>

datatype pyexc = PyExc pystr

record stats =
  hunks_applied :: int
  lines_added :: int
  lines_removed :: int

record diagnostics =
  failed :: bool
  conflicted :: bool
  details :: "diag_entry list"

record apply_state =
  out_lines :: "pystr list"
  line_offset :: int
  stats :: stats
  diagnostics :: diagnostics

definition add_detail :: "diag_entry \<Rightarrow> apply_state \<Rightarrow> apply_state" where
  "add_detail e st =
     st\<lparr>diagnostics := (diagnostics st)\<lparr>details := details (diagnostics st) @ [e]\<rparr>\<rparr>"

definition conflict_fallback :: "int \<Rightarrow> hunk \<Rightarrow> apply_state \<Rightarrow> apply_state" where
  "conflict_fallback pos h st =
     st\<lparr>out_lines := insert_conflict_markers (out_lines st) pos h,
        diagnostics := (diagnostics st)\<lparr>conflicted := True\<rparr>,
        stats := (stats st)\<lparr>hunks_applied := hunks_applied (stats st) + 1\<rparr>\<rparr>"

definition set_failed :: "apply_state \<Rightarrow> apply_state" where
  "set_failed st = st\<lparr>diagnostics := (diagnostics st)\<lparr>failed := True\<rparr>\<rparr>"

definition hunk_applied :: "hunk \<Rightarrow> pystr list \<Rightarrow> int \<Rightarrow> apply_state \<Rightarrow> apply_state" where
  "hunk_applied h new_out delta st =
     st\<lparr>out_lines := new_out,
        line_offset := line_offset st + delta,
        stats := (stats st)
          \<lparr>hunks_applied := hunks_applied (stats st) + 1,
           lines_added := lines_added (stats st) + count_tag (lines h) (u ''+''),
           lines_removed := lines_removed (stats st) + count_tag (lines h) (u ''-'')\<rparr>\<rparr>"

fun hunks_loop :: "options \<Rightarrow> nat \<Rightarrow> hunk list \<Rightarrow> apply_state \<Rightarrow> apply_state" where
  "hunks_loop opts h_idx [] st = st"
| "hunks_loop opts h_idx (h # hs) st =
     (let expected_pos = max 0 ((old_start h - 1) + line_offset st);
          ignore_ws = ignore_whitespace_differences opts
      in case locate_hunk_position (out_lines st) h expected_pos ignore_ws
                (best_effort_fuzzy_apply opts) (fuzzy_window_size opts) of
           (None, dec) \<Rightarrow>
             (let st1 = add_detail (build_mismatch_diag (out_lines st) h expected_pos dec h_idx None) st
              in if conflict_marker_mode opts
                 then hunks_loop opts (h_idx + 1) hs (conflict_fallback expected_pos h st1)
                 else set_failed st1)
         | (Some apply_pos, dec) \<Rightarrow>
             (case apply_hunk_at (out_lines st) h (nat apply_pos) ignore_ws of
                (False, _, _, mm) \<Rightarrow>
                  (let st1 = add_detail
                               (build_mismatch_diag (out_lines st) h apply_pos dec h_idx mm) st
                   in if conflict_marker_mode opts
                      then hunks_loop opts (h_idx + 1) hs (conflict_fallback apply_pos h st1)
                      else set_failed st1)
              | (True, new_out, delta, _) \<Rightarrow>
                  hunks_loop opts (h_idx + 1) hs (hunk_applied h new_out delta st)))"

definition original_lines_of :: "pystr \<Rightarrow> pystr list \<Rightarrow> pystr list" where
  "original_lines_of original_text original_lines =
     (if endswith original_text [LF] then
        (if original_lines \<noteq> [] \<and> last original_lines \<noteq> [] then original_lines @ [[]]
         else original_lines)
      else original_lines)"

definition initial_state :: "pystr list \<Rightarrow> apply_state" where
  "initial_state original_lines =
     \<lparr>out_lines = original_lines, line_offset = 0,
      stats = \<lparr>hunks_applied = 0, lines_added = 0, lines_removed = 0\<rparr>,
      diagnostics = \<lparr>failed = False, conflicted = False, details = []\<rparr>\<rparr>"

definition fold_newlines :: "pystr \<Rightarrow> pystr" where
  "fold_newlines t = py_replace [CR] [LF] (py_replace [CR, LF] [LF] t)"

definition apply_filepatch_in_memory ::
  "filepatch \<Rightarrow> pyexc + pystr \<Rightarrow> options \<Rightarrow> pyexc + (pystr \<times> stats \<times> diagnostics)" where
  "apply_filepatch_in_memory fp file_text opts =
     (case (if operation fp = Create then Inr ([], [])
            else (case file_text of
                    Inl e \<Rightarrow> Inl e
                  | Inr t \<Rightarrow> Inr (fold_newlines t, py_split (fold_newlines t) LF))) of
        Inl e \<Rightarrow> Inl e
      | Inr (original_text, original_lines) \<Rightarrow>
          (let st = hunks_loop opts 0 (hunks fp)
                      (initial_state (original_lines_of original_text original_lines))
           in Inr (py_join [LF] (out_lines st), stats st, diagnostics st)))"

text \<open>
  \<open>_apply_hunk_at\<close> once more, on a store of list objects, to follow which list the
  code changes. The store is the list of all list objects, an address is an index into
  it. \<open>out = []\<close> allocates a new object at the end of the store; \<open>out.extend\<close> and
  \<open>out.append\<close> update that object in place; \<open>lines\<close> is only read, at its address
  \<open>a\<close>. The function returns the address of the list it returns, and the store.
\<close>

type_synonym addr = nat
type_synonym heap = "pystr list list"

fun apply_hunk_loop_heap ::
  "heap \<Rightarrow> addr \<Rightarrow> addr \<Rightarrow> bool \<Rightarrow> (pystr \<times> pystr) list \<Rightarrow> nat \<Rightarrow>
   mismatch_info option \<times> nat \<times> heap" where
  "apply_hunk_loop_heap hp a out ignore_ws [] i = (None, i, hp)"
| "apply_hunk_loop_heap hp a out ignore_ws ((t, s) # rest) i =
     (if t = u '' '' then
        (if i \<ge> length (hp ! a) then (Some (Context_beyond_EOF i), i, hp)
         else if normalize_match_line s ignore_ws \<noteq> normalize_match_line (hp ! a ! i) ignore_ws
           then (Some (Context_mismatch i s (hp ! a ! i)), i, hp)
         else apply_hunk_loop_heap (hp[out := hp ! out @ [hp ! a ! i]]) a out ignore_ws rest (i + 1))
      else if t = u ''-'' then
        (if i \<ge> length (hp ! a) then (Some (Deletion_beyond_EOF i), i, hp)
         else if normalize_match_line s ignore_ws \<noteq> normalize_match_line (hp ! a ! i) ignore_ws
           then (Some (Deletion_mismatch i s (hp ! a ! i)), i, hp)
         else apply_hunk_loop_heap hp a out ignore_ws rest (i + 1))
      else if t = u ''+'' then
        apply_hunk_loop_heap (hp[out := hp ! out @ [s]]) a out ignore_ws rest i
      else apply_hunk_loop_heap hp a out ignore_ws rest i)"

definition apply_hunk_at_heap ::
  "heap \<Rightarrow> addr \<Rightarrow> hunk \<Rightarrow> nat \<Rightarrow> bool \<Rightarrow>
   (bool \<times> addr \<times> int \<times> mismatch_info option) \<times> heap" where
  "apply_hunk_at_heap hp a h pos ignore_ws =
     (let out = length hp;
          hp1 = hp @ [[]];
          hp2 = hp1[out := hp1 ! out @ take pos (hp1 ! a)]
      in case apply_hunk_loop_heap hp2 a out ignore_ws (lines h) pos of
           (Some mm, i, hp3) \<Rightarrow> ((False, a, 0, Some mm), hp3)
         | (None, i, hp3) \<Rightarrow>
             ((True, out, count_tag (lines h) (u ''+'') - count_tag (lines h) (u ''-''), None),
              hp3[out := hp3 ! out @ drop i (hp3 ! a)]))"

section \<open>Applier: preflight, preview and disk apply (applier.py)\<close>

text \<open>
  The file system the applier reads is an environment of functions over a type of
  paths: \<open>Path(root_folder).resolve()\<close>, \<open>(root / rel).resolve()\<close>, whether
  \<open>p.relative_to(root)\<close> returns, \<open>str(p)\<close>, \<open>p.exists()\<close>,
  \<open>p.parent.exists()\<close>, \<open>Path(s).read_text(...)\<close>, \<open>Path(s).read_bytes()\<close>, and the
  creation of the backup session folder under the root
  (\<open>root / ".patchstudio_backups" / time.strftime(...)\<close>, then
  \<open>mkdir(parents=True, exist_ok=True)\<close>), which returns the folder or raises. The
  path queries are taken to return; reading and creating can raise.
\<close>

type_synonym bytes = "char list"

record 'p env =
  resolve_root :: "pystr \<Rightarrow> 'p"
  join_resolve :: "'p \<Rightarrow> pystr \<Rightarrow> 'p"
  relative_to_ok :: "'p \<Rightarrow> 'p \<Rightarrow> bool"
  path_str :: "'p \<Rightarrow> pystr"
  path_exists :: "'p \<Rightarrow> bool"
  parent_exists :: "'p \<Rightarrow> bool"
  read_text :: "pystr \<Rightarrow> pyexc + pystr"
  read_bytes :: "pystr \<Rightarrow> pyexc + bytes"
  mkdir_backup_root :: "'p \<Rightarrow> pyexc + 'p"

datatype status = Found | Invalid | Outside_root | Unsupported_binary | Missing | Blocked

record report_entry =
  r_file :: pystr
  r_operation :: operation
  r_resolved :: pystr
  r_status :: status
  r_suggested :: pystr
  r_filepatch :: filepatch

text \<open>
  \<open>preflight\<close>, for one file patch and a resolved root: the status, the suggestion and
  the resolved path, as the nested conditions of the loop body assign them.
\<close>

definition invalid_name :: "pystr \<Rightarrow> bool" where
  "invalid_name rel \<longleftrightarrow>
     startswith rel (u ''/'') \<or> startswith rel [92] \<or>
     list_ex (\<lambda>c. c \<in> set (u '':*?'' @ [34] @ u ''<>|'')) rel"

definition preflight_checks :: "'p env \<Rightarrow> 'p \<Rightarrow> bool \<Rightarrow> filepatch \<Rightarrow> 'p \<Rightarrow> status \<times> pystr" where
  "preflight_checks env root allow_rename fp resolved_path =
     (if \<not> relative_to_ok env resolved_path root then
        (Outside_root,
         u ''Choose a different root folder or fix patch paths (path resolves outside root).'')
      else if is_binary fp then
        (Unsupported_binary,
         u ''Enable 'Skip unsupported binary files' to apply other files; binary patch itself cannot be applied.'')
      else
        (case operation fp of
           Modify \<Rightarrow>
             if \<not> path_exists env resolved_path then
               (Missing, u ''Select a root folder that contains this file, or verify patch paths.'')
             else (Found, [])
         | Create \<Rightarrow>
             if \<not> parent_exists env resolved_path then
               (Missing, u ''Create the destination folders or choose a different root folder.'')
             else (Found, [])
         | Delete \<Rightarrow>
             if \<not> path_exists env resolved_path then
               (Missing, u ''Select a root folder that contains the file to delete.'')
             else (Found, [])
         | Rename \<Rightarrow>
             if \<not> allow_rename then
               (Blocked, u ''Enable 'Allow rename/delete/mode changes' in Advanced to proceed.'')
             else if old_path fp \<noteq> [] \<and> old_path fp \<noteq> DEV_NULL then
               (if \<not> relative_to_ok env (join_resolve env root (old_path fp)) root then
                  (Outside_root,
                   u ''Rename source resolves outside root; choose a different root folder.'')
                else if \<not> path_exists env (join_resolve env root (old_path fp)) then
                  (Missing, u ''Rename source file not found; choose a different root folder.'')
                else (Found, []))
             else (Found, [])))"

definition preflight_one :: "'p env \<Rightarrow> 'p option \<Rightarrow> options \<Rightarrow> filepatch \<Rightarrow> report_entry" where
  "preflight_one env root opts fp =
     (let (st, suggested, resolved) =
        (case root of
           None \<Rightarrow>
             (Invalid,
              u ''Choose a root folder (Open Folder'' @ [0x2026] @
                u '') that contains the referenced files.'', [])
         | Some rt \<Rightarrow>
             (let candidate_rel = (if new_path fp \<noteq> DEV_NULL then new_path fp else old_path fp) in
              if candidate_rel = [] \<or> candidate_rel = DEV_NULL then
                (Invalid, u ''Patch file header paths are missing or invalid.'', [])
              else if strict_filename_match opts \<and> invalid_name candidate_rel then
                (Invalid,
                 u ''Disable Strict filename match or fix patch paths to be relative and valid.'', [])
              else
                (let resolved_path = join_resolve env rt candidate_rel;
                     resolved = path_str env resolved_path
                 in if resolved \<noteq> [] then
                      (let (st, sg) = preflight_checks env rt
                                        (allow_rename_delete_mode_changes opts) fp resolved_path
                       in (st, sg, resolved))
                    else (Found, [], resolved))))
      in \<lparr>r_file = display_path fp, r_operation = operation fp, r_resolved = resolved,
           r_status = st, r_suggested = suggested, r_filepatch = fp\<rparr>)"

definition preflight :: "'p env \<Rightarrow> patchset \<Rightarrow> pystr option \<Rightarrow> options \<Rightarrow> report_entry list" where
  "preflight env ps root_folder opts =
     (let root = (case root_folder of
                    None \<Rightarrow> None
                  | Some rf \<Rightarrow> if rf \<noteq> [] then Some (resolve_root env rf) else None)
      in map (preflight_one env root opts) (files ps))"

text \<open>
  The gate after preflight, the same in \<open>preview_apply\<close> and \<open>apply_to_disk\<close>: the
  records that block.
\<close>

definition blocking_records :: "report_entry list \<Rightarrow> bool \<Rightarrow> report_entry list" where
  "blocking_records report skip_bin =
     concat (map (\<lambda>r.
        (if r_status r \<in> {Missing, Invalid, Outside_root, Blocked} then [r] else []) @
        (if r_status r = Unsupported_binary \<and> \<not> skip_bin then [r] else [])) report)"

text \<open>
  \<open>ApplyResult\<close>. The \<open>per_file\<close> dictionary maps a display path to a record of the
  keys the code sets; \<open>summary\<close> is a record of its keys (\<open>None\<close>: not set); a log
  entry is its level, message and further fields (the time stamp is left out).
\<close>

datatype log_field = F_int int | F_str pystr | F_diag diagnostics

record log_entry =
  log_level :: pystr
  log_message :: pystr
  log_fields :: "(string \<times> log_field) list"

record per_file_entry =
  pf_status :: pystr
  pf_applied :: "bool option"
  pf_error :: "pystr option"
  pf_stats :: "stats option"
  pf_diagnostics :: "diagnostics option"
  pf_operation :: "operation option"
  pf_resolved :: "pystr option"

record summary =
  s_preflight :: "report_entry list option"
  s_files_total :: "int option"
  s_hunks_applied :: "int option"
  s_lines_added :: "int option"
  s_lines_removed :: "int option"
  s_outputs :: "(pystr \<rightharpoonup> pystr) option"
  s_conflicted_files :: "pystr list option"
  s_failed_files :: "pystr list option"
  s_files_applied :: "int option"
  s_backup_folder :: "pystr option"

record apply_result =
  success :: bool
  overall_message :: pystr
  per_file :: "pystr \<rightharpoonup> per_file_entry"
  summary :: summary
  logs :: "log_entry list"

definition empty_summary :: summary where
  "empty_summary =
     \<lparr>s_preflight = None, s_files_total = None, s_hunks_applied = None, s_lines_added = None,
      s_lines_removed = None, s_outputs = None, s_conflicted_files = None,
      s_failed_files = None, s_files_applied = None, s_backup_folder = None\<rparr>"

definition new_result :: "pystr \<Rightarrow> apply_result" where
  "new_result msg =
     \<lparr>success = False, overall_message = msg, per_file = Map.empty, summary = empty_summary,
      logs = []\<rparr>"

definition add_log :: "pystr \<Rightarrow> pystr \<Rightarrow> (string \<times> log_field) list \<Rightarrow> apply_result \<Rightarrow> apply_result" where
  "add_log lv msg fs res = res\<lparr>logs := logs res @ [\<lparr>log_level = lv, log_message = msg, log_fields = fs\<rparr>]\<rparr>"

definition entry :: "pystr \<Rightarrow> per_file_entry" where
  "entry st =
     \<lparr>pf_status = st, pf_applied = None, pf_error = None, pf_stats = None,
      pf_diagnostics = None, pf_operation = None, pf_resolved = None\<rparr>"

definition set_per_file :: "pystr \<Rightarrow> per_file_entry \<Rightarrow> apply_result \<Rightarrow> apply_result" where
  "set_per_file display e res = res\<lparr>per_file := (per_file res)(display \<mapsto> e)\<rparr>"

definition exc_str :: "pyexc \<Rightarrow> pystr" where
  "exc_str e = (case e of PyExc msg \<Rightarrow> msg)"

text \<open>
  The loop of \<open>preview_apply\<close> over the report carries the result, the totals, the
  outputs and the two lists of files; \<open>break\<close> ends the recursion.
\<close>

record preview_state =
  pv_res :: apply_result
  total_hunks :: int
  total_added :: int
  total_removed :: int
  outputs :: "pystr \<rightharpoonup> pystr"
  conflicted_files :: "pystr list"
  failed_files :: "pystr list"

fun preview_loop :: "'p env \<Rightarrow> options \<Rightarrow> report_entry list \<Rightarrow> preview_state \<Rightarrow> preview_state" where
  "preview_loop env opts [] s = s"
| "preview_loop env opts (r # rest) s =
     (let fp = r_filepatch r; display = display_path fp in
      if r_status r = Unsupported_binary then
        (if skip_unsupported_binary_files opts then
           preview_loop env opts rest
             (s\<lparr>pv_res :=
                  add_log (u ''INFO'') (u ''Skipped unsupported binary file.'')
                    [(''file'', F_str display)]
                    (set_per_file display
                       ((entry (u ''Skipped (binary unsupported)''))\<lparr>pf_applied := Some False\<rparr>)
                       (pv_res s))\<rparr>)
         else
           preview_loop env opts rest
             (s\<lparr>pv_res :=
                  set_per_file display
                    ((entry (u ''Blocked (binary unsupported)''))\<lparr>pf_applied := Some False\<rparr>)
                    (pv_res s),
                failed_files := failed_files s @ [display]\<rparr>))
      else
        (case apply_filepatch_in_memory fp (read_text env (r_resolved r)) opts of
           Inl e \<Rightarrow>
             (let s1 = s\<lparr>failed_files := failed_files s @ [display],
                          pv_res :=
                            add_log (u ''ERROR'') (u ''Exception during preview apply.'')
                              [(''file'', F_str display), (''error'', F_str (exc_str e))]
                              (set_per_file display
                                 ((entry (u ''Failed''))
                                    \<lparr>pf_applied := Some False, pf_error := Some (exc_str e)\<rparr>)
                                 (pv_res s))\<rparr>
              in if \<not> partial_apply_per_file_override opts then s1
                 else preview_loop env opts rest s1)
         | Inr (new_text, st, diag) \<Rightarrow>
             if failed diag \<and> \<not> (conflict_marker_mode opts \<and> conflicted diag) then
               (let s1 = s\<lparr>failed_files := failed_files s @ [display],
                            pv_res :=
                              add_log (u ''ERROR'') (u ''Hunk application failed.'')
                                [(''file'', F_str display), (''diagnostics'', F_diag diag)]
                                (set_per_file display
                                   ((entry (u ''Failed''))
                                      \<lparr>pf_applied := Some False, pf_diagnostics := Some diag\<rparr>)
                                   (pv_res s))\<rparr>
                in if \<not> partial_apply_per_file_override opts then s1
                   else preview_loop env opts rest s1)
             else
               preview_loop env opts rest
                 (s\<lparr>conflicted_files :=
                      (if conflicted diag then conflicted_files s @ [display]
                       else conflicted_files s),
                    outputs :=
                      (outputs s)(display \<mapsto> (if operation fp = Delete then [] else new_text)),
                    total_hunks := total_hunks s + hunks_applied st,
                    total_added := total_added s + lines_added st,
                    total_removed := total_removed s + lines_removed st,
                    pv_res :=
                      set_per_file display
                        ((entry (if \<not> conflicted diag then u ''OK'' else u ''Conflicted''))
                           \<lparr>pf_applied := Some True, pf_stats := Some st,
                            pf_diagnostics := Some diag, pf_operation := Some (operation fp),
                            pf_resolved := Some (r_resolved r)\<rparr>)
                        (pv_res s)\<rparr>)))"

definition preview_apply :: "'p env \<Rightarrow> patchset \<Rightarrow> pystr \<Rightarrow> options \<Rightarrow> apply_result" where
  "preview_apply env ps root_folder opts =
     (let res0 = new_result (u ''Preview failed.'');
          report = preflight env ps (Some root_folder) opts;
          blocking = blocking_records report (skip_unsupported_binary_files opts)
      in if blocking \<noteq> [] then
           (add_log (u ''WARN'') (u ''Preflight failed; blocking preview.'')
              [(''blocking'', F_int (int (length blocking)))]
              (res0\<lparr>overall_message :=
                      u ''Patch references files not found under the selected root folder.''\<rparr>))
             \<lparr>summary := empty_summary\<lparr>s_preflight := Some report\<rparr>, success := False\<rparr>
         else
           (let res1 = add_log (u ''INFO'') (u ''Preflight passed for preview.'')
                         [(''files'', F_int (int (length report)))]
                         (res0\<lparr>summary := empty_summary\<lparr>s_preflight := Some report\<rparr>\<rparr>);
                s = preview_loop env opts report
                      \<lparr>pv_res = res1, total_hunks = 0, total_added = 0, total_removed = 0,
                       outputs = Map.empty, conflicted_files = [], failed_files = []\<rparr>;
                res2 = (if failed_files s \<noteq> [] \<and> \<not> partial_apply_per_file_override opts
                        then (pv_res s)\<lparr>success := False,
                                        overall_message :=
                                          u ''Preview failed due to one or more files.''\<rparr>
                        else (pv_res s)\<lparr>success := True\<rparr>);
                res3 = res2\<lparr>summary := (summary res2)
                         \<lparr>s_files_total := Some (int (length report)),
                          s_hunks_applied := Some (total_hunks s),
                          s_lines_added := Some (total_added s),
                          s_lines_removed := Some (total_removed s),
                          s_outputs := Some (outputs s),
                          s_conflicted_files := Some (conflicted_files s),
                          s_failed_files := Some (failed_files s)\<rparr>\<rparr>;
                res4 = (if conflicted_files s \<noteq> []
                        then add_log (u ''WARN'')
                               (u ''Preview produced conflicted output for some files.'')
                               [(''conflicted'', F_int (int (length (conflicted_files s))))] res3
                        else res3)
            in if success res4 then res4\<lparr>overall_message := u ''Preview succeeded.''\<rparr>
               else res4))"

text \<open>
  \<open>apply_to_disk\<close>, from its start to the creation of the backup session folder: the
  preflight gate, the gate on conflicted output, \<open>backup_root.mkdir\<close>, which stands
  outside every \<open>try\<close>, and the log entry after it. The loop over the files and the
  assignments after it are the parameter \<open>per_file_loop\<close>, called with the root, the
  backup folder, the outputs of the preview, the report and the result so far. The
  result is the exception that leaves the function, or the \<open>ApplyResult\<close> it returns.
\<close>

definition apply_to_disk ::
  "'p env \<Rightarrow>
   ('p \<Rightarrow> 'p \<Rightarrow> (pystr \<rightharpoonup> pystr) \<Rightarrow> report_entry list \<Rightarrow> apply_result \<Rightarrow> pyexc + apply_result) \<Rightarrow>
   patchset \<Rightarrow> pystr \<Rightarrow> apply_result option \<Rightarrow> options \<Rightarrow> pyexc + apply_result" where
  "apply_to_disk env per_file_loop ps root_folder preview opts =
     (let res0 = new_result (u ''Apply failed.'');
          report = preflight env ps (Some root_folder) opts;
          res1 = res0\<lparr>summary := empty_summary\<lparr>s_preflight := Some report\<rparr>\<rparr>;
          blocking = blocking_records report (skip_unsupported_binary_files opts)
      in if blocking \<noteq> [] then
           Inr ((add_log (u ''ERROR'') (u ''Preflight failed; blocking apply.'')
                   [(''blocking'', F_int (int (length blocking)))]
                   (res1\<lparr>overall_message :=
                           u ''Patch references files not found under the selected root folder.''\<rparr>))
                  \<lparr>success := False\<rparr>)
         else
           (let conflicted_list =
                  (case preview of
                     None \<Rightarrow> []
                   | Some pv \<Rightarrow> (case s_conflicted_files (summary pv) of None \<Rightarrow> [] | Some c \<Rightarrow> c))
            in if conflicted_list \<noteq> [] \<and> \<not> allow_writing_conflicted_output opts then
                 Inr ((add_log (u ''ERROR'') (u ''Conflicted output blocks disk write.'')
                         [(''conflicted'', F_int (int (length conflicted_list)))]
                         (res1\<lparr>overall_message :=
                                 u ''Conflicted output was produced; writing to disk is blocked.''\<rparr>))
                        \<lparr>success := False\<rparr>)
               else
                 (case mkdir_backup_root env (resolve_root env root_folder) of
                    Inl e \<Rightarrow> Inl e
                  | Inr backup_root \<Rightarrow>
                      per_file_loop (resolve_root env root_folder) backup_root
                        (case preview of
                           None \<Rightarrow> Map.empty
                         | Some pv \<Rightarrow>
                             (case s_outputs (summary pv) of None \<Rightarrow> Map.empty | Some m \<Rightarrow> m))
                        report
                        (add_log (u ''INFO'') (u ''Created backup folder.'')
                           [(''backup'', F_str (path_str env backup_root))] res1))))"

text \<open>
  \<open>_detect_eol\<close>, and the choice of the line ending in the \<open>create\<close> and \<open>modify\<close>
  branches of \<open>apply_to_disk\<close>: \<open>eol = "\n"\<close>, then
  \<open>if preserve_eol and target_abs.exists(): eol = self._detect_eol(str(target_abs))\<close>.
\<close>

definition detect_eol :: "'p env \<Rightarrow> pystr \<Rightarrow> pystr" where
  "detect_eol env path =
     (case read_bytes env path of
        Inl e \<Rightarrow> [LF]
      | Inr data \<Rightarrow>
          (let crlf = py_count data [CHR 0x0D, CHR 0x0A];
               lf = py_count data [CHR 0x0A]
           in if crlf > 0 \<and> crlf \<ge> lf - crlf then [CR, LF] else [LF]))"

definition write_eol :: "'p env \<Rightarrow> options \<Rightarrow> 'p \<Rightarrow> pystr" where
  "write_eol env opts target_abs =
     (if preserve_original_line_endings opts \<and> path_exists env target_abs
      then detect_eol env (path_str env target_abs)
      else [LF])"

section \<open>DiffGenerator (diffgen.py)\<close>

text \<open>
  \<open>difflib.unified_diff(a, b, fromfile, tofile, lineterm)\<close> of the Python library, as
  far as it formats: the header lines end with \<open>lineterm\<close>, a content line is its tag
  followed by the line and nothing else. The grouped opcodes that
  \<open>SequenceMatcher(None, a, b).get_grouped_opcodes(3)\<close> computes are the parameter
  \<open>matcher\<close>; its groups are not empty.
\<close>

datatype optag = Op_equal | Op_replace | Op_delete | Op_insert

type_synonym opcode = "optag \<times> nat \<times> nat \<times> nat \<times> nat"
type_synonym matcher = "pystr list \<Rightarrow> pystr list \<Rightarrow> opcode list list"

function nat_digits :: "nat \<Rightarrow> pystr" where
  "nat_digits n = (if n < 10 then [48 + n] else nat_digits (n div 10) @ [48 + n mod 10])"
  by pat_completeness auto
termination
  by (relation "measure id") auto

declare nat_digits.simps [simp del]

definition py_str_int :: "int \<Rightarrow> pystr" where
  "py_str_int i = (if i < 0 then u ''-'' @ nat_digits (nat (- i)) else nat_digits (nat i))"

definition format_range_unified :: "nat \<Rightarrow> nat \<Rightarrow> pystr" where
  "format_range_unified start stop =
     (let beginning = int start + 1;
          len = int stop - int start
      in if len = 1 then py_str_int beginning
         else py_str_int (if len = 0 then beginning - 1 else beginning) @ u '','' @
              py_str_int len)"

definition py_slice :: "'a list \<Rightarrow> nat \<Rightarrow> nat \<Rightarrow> 'a list" where
  "py_slice xs i j = take (j - i) (drop i xs)"

definition opcode_lines :: "pystr list \<Rightarrow> pystr list \<Rightarrow> opcode \<Rightarrow> pystr list" where
  "opcode_lines a b = (\<lambda>(tag, i1, i2, j1, j2).
     if tag = Op_equal then map (\<lambda>line. u '' '' @ line) (py_slice a i1 i2)
     else (if tag = Op_replace \<or> tag = Op_delete
           then map (\<lambda>line. u ''-'' @ line) (py_slice a i1 i2) else []) @
          (if tag = Op_replace \<or> tag = Op_insert
           then map (\<lambda>line. u ''+'' @ line) (py_slice b j1 j2) else []))"

definition group_lines :: "pystr list \<Rightarrow> pystr list \<Rightarrow> pystr \<Rightarrow> opcode list \<Rightarrow> pystr list" where
  "group_lines a b lineterm g =
     (case (hd g, last g) of
        ((_, f1, _, f3, _), (_, _, l2, _, l4)) \<Rightarrow>
          (u ''@@ -'' @ format_range_unified f1 l2 @ u '' +'' @ format_range_unified f3 l4 @
           u '' @@'' @ lineterm) # concat (map (opcode_lines a b) g))"

definition unified_diff ::
  "matcher \<Rightarrow> pystr list \<Rightarrow> pystr list \<Rightarrow> pystr \<Rightarrow> pystr \<Rightarrow> pystr \<Rightarrow> pystr list" where
  "unified_diff matcher a b fromfile tofile lineterm =
     (if matcher a b = [] then []
      else [u ''--- '' @ fromfile @ lineterm, u ''+++ '' @ tofile @ lineterm] @
           concat (map (group_lines a b lineterm) (matcher a b)))"

definition diff_lines_of :: "pystr \<Rightarrow> pystr list" where
  "diff_lines_of t =
     (let ls = py_split (fold_newlines t) LF in
      if endswith t [LF] \<and> (ls = [] \<or> last ls \<noteq> []) then ls @ [[]] else ls)"

definition generate_unified_for_file :: "matcher \<Rightarrow> pystr \<Rightarrow> pystr \<Rightarrow> pystr \<Rightarrow> pystr \<Rightarrow> pystr" where
  "generate_unified_for_file matcher old_text new_text old_p new_p =
     concat (unified_diff matcher (diff_lines_of old_text) (diff_lines_of new_text)
               old_p new_p [LF])"

definition map_get :: "('k \<rightharpoonup> 'v) \<Rightarrow> 'k \<Rightarrow> 'v \<Rightarrow> 'v" where
  "map_get m k dflt = (case m k of None \<Rightarrow> dflt | Some v \<Rightarrow> v)"

definition end_with_newline :: "pystr \<Rightarrow> pystr" where
  "end_with_newline s = (if \<not> endswith s [LF] then s @ [LF] else s)"

fun generate_loop ::
  "matcher \<Rightarrow> (pystr \<rightharpoonup> pystr) \<Rightarrow> (pystr \<rightharpoonup> pystr) \<Rightarrow> filepatch list \<Rightarrow> pystr list \<Rightarrow> pystr list" where
  "generate_loop matcher baseline outs [] buf = buf"
| "generate_loop matcher baseline outs (fp # rest) buf =
     (if is_binary fp then generate_loop matcher baseline outs rest buf
      else if operation fp = Delete then
        generate_loop matcher baseline outs rest
          (buf @ [end_with_newline
                    (generate_unified_for_file matcher (map_get baseline (display_path fp) [])
                       [] (old_path fp) DEV_NULL)])
      else if operation fp = Create then
        generate_loop matcher baseline outs rest
          (buf @ [end_with_newline
                    (generate_unified_for_file matcher []
                       (map_get outs (display_path fp) []) DEV_NULL (new_path fp))])
      else
        generate_loop matcher baseline outs rest
          (buf @ [end_with_newline
                    (generate_unified_for_file matcher (map_get baseline (display_path fp) [])
                       (map_get outs (display_path fp) (map_get baseline (display_path fp) []))
                       (old_path fp) (new_path fp))]))"

definition generate_unified_patchset ::
  "matcher \<Rightarrow> (pystr \<rightharpoonup> pystr) \<Rightarrow> (pystr \<rightharpoonup> pystr) \<Rightarrow> patchset \<Rightarrow> pystr" where
  "generate_unified_patchset matcher baseline outs ps =
     concat (generate_loop matcher baseline outs (files ps) [])"

section \<open>Notions of the specification\<close>

text \<open>
  Line-ending folding as the specification words it: every CR LF pair becomes LF, then
  every remaining CR becomes LF. \<open>strip_one_bom\<close> removes exactly one leading BOM.
\<close>

fun fold_crlf :: "pystr \<Rightarrow> pystr" where
  "fold_crlf [] = []"
| "fold_crlf [c] = [c]"
| "fold_crlf (c # d # r) =
     (if c = CR \<and> d = LF then LF # fold_crlf r else c # fold_crlf (d # r))"

definition fold_cr :: "pystr \<Rightarrow> pystr" where
  "fold_cr s = map (\<lambda>c. if c = CR then LF else c) s"

definition strip_one_bom :: "pystr \<Rightarrow> pystr" where
  "strip_one_bom s = (case s of [] \<Rightarrow> [] | c # r \<Rightarrow> if c = BOM then r else s)"

text \<open>An insertion-only hunk: no line of it is tagged as context or as deletion.\<close>

definition insertion_only :: "hunk \<Rightarrow> bool" where
  "insertion_only h = list_all (\<lambda>(t, s). t \<noteq> u '' '' \<and> t \<noteq> u ''-'') (lines h)"

text \<open>
  The positions of the fuzzy window around \<open>pos\<close> at which the anchors of the hunk
  match the buffer.
\<close>

definition window_matches :: "pystr list \<Rightarrow> hunk \<Rightarrow> int \<Rightarrow> bool \<Rightarrow> int \<Rightarrow> int set" where
  "window_matches lns h pos ignore_ws w =
     {p. max 0 (pos - w) \<le> p \<and> p \<le> min (int (length lns)) (pos + w) \<and>
         hunk_anchors_match lns h p ignore_ws}"

text \<open>Additions minus deletions of a hunk.\<close>

definition hunk_delta :: "hunk \<Rightarrow> int" where
  "hunk_delta h = count_tag (lines h) (u ''+'') - count_tag (lines h) (u ''-'')"

text \<open>
  What a hunk puts in the place of its anchors, read against the buffer from index
  \<open>i\<close>: a context line keeps the buffer's line, a deletion drops it, an addition
  inserts its text. \<open>mismatch_at\<close> is the index a mismatch record reports.
\<close>

fun patched :: "pystr list \<Rightarrow> nat \<Rightarrow> (pystr \<times> pystr) list \<Rightarrow> pystr list" where
  "patched lns i [] = []"
| "patched lns i ((t, s) # rest) =
     (if t = u '' '' then lns ! i # patched lns (i + 1) rest
      else if t = u ''-'' then patched lns (i + 1) rest
      else if t = u ''+'' then s # patched lns i rest
      else patched lns i rest)"

fun mismatch_at :: "mismatch_info \<Rightarrow> nat" where
  "mismatch_at (Context_beyond_EOF i) = i"
| "mismatch_at (Context_mismatch i e a) = i"
| "mismatch_at (Deletion_beyond_EOF i) = i"
| "mismatch_at (Deletion_mismatch i e a) = i"

definition is_anchor :: "pystr \<times> pystr \<Rightarrow> bool" where
  "is_anchor = (\<lambda>(t, s). t = u '' '' \<or> t = u ''-'')"

text \<open>Inputs of the examples.\<close>

definition example_opts :: options where
  "example_opts =
     \<lparr>strict_filename_match = False, best_effort_fuzzy_apply = False, fuzzy_window_size = 200,
      ignore_whitespace_differences = False, conflict_marker_mode = False,
      allow_rename_delete_mode_changes = False, partial_apply_per_file_override = False,
      preserve_original_line_endings = True, allow_writing_conflicted_output = False,
      skip_unsupported_binary_files = True\<rparr>"

definition example_buffer :: "pystr list" where
  "example_buffer = [u ''a'', u ''b'', u ''c'', u ''b'', u ''a'']"

definition hunk_ctx_a :: hunk where
  "hunk_ctx_a = \<lparr>old_start = 3, old_count = 1, new_start = 3, new_count = 1,
                 header = u ''@@ -3 +3 @@'', lines = [(u '' '', u ''a'')]\<rparr>"

definition hunk_add_x :: hunk where
  "hunk_add_x = \<lparr>old_start = 9, old_count = 0, new_start = 9, new_count = 1,
                 header = u ''@@ -9,0 +9 @@'', lines = [(u ''+'', u ''x'')]\<rparr>"

definition hunk_one :: hunk where
  "hunk_one = \<lparr>old_start = 1, old_count = 1, new_start = 1, new_count = 3,
               header = u ''@@ -1 +1,3 @@'',
               lines = [(u '' '', u ''a''), (u ''+'', u ''x''), (u ''+'', u ''y'')]\<rparr>"

definition hunk_two :: hunk where
  "hunk_two = \<lparr>old_start = 3, old_count = 2, new_start = 5, new_count = 1,
               header = u ''@@ -3,2 +5 @@'',
               lines = [(u ''-'', u ''c''), (u '' '', u ''b'')]\<rparr>"

definition example_fp :: filepatch where
  "example_fp =
     \<lparr>old_path = u ''f.txt'', new_path = u ''f.txt'', display_path = u ''f.txt'',
      operation = Modify, hunks = [hunk_one, hunk_two], is_binary = False,
      binary_reason = [], metadata = Map.empty\<rparr>"

text \<open>
  A small file system for the examples: files are given by absolute path with their
  (ASCII) text, every path under the root resolves to root, separator and relative
  path, and the backup folder can be created only when \<open>writable\<close> holds (it cannot,
  for instance, when \<open>.patchstudio_backups\<close> is a regular file of the root).
\<close>

definition toy_env :: "(pystr \<times> pystr) list \<Rightarrow> bool \<Rightarrow> pystr env" where
  "toy_env fs writable =
     \<lparr>resolve_root = (\<lambda>r. r),
      join_resolve = (\<lambda>root rel. root @ u ''/'' @ rel),
      relative_to_ok = (\<lambda>p root. startswith p (root @ u ''/'')),
      path_str = (\<lambda>p. p),
      path_exists = (\<lambda>p. map_of fs p \<noteq> None),
      parent_exists = (\<lambda>p. True),
      read_text = (\<lambda>p. case map_of fs p of
                           None \<Rightarrow> Inl (PyExc (u ''[Errno 2] No such file or directory''))
                         | Some t \<Rightarrow> Inr t),
      read_bytes = (\<lambda>p. case map_of fs p of
                            None \<Rightarrow> Inl (PyExc (u ''[Errno 2] No such file or directory''))
                          | Some t \<Rightarrow> Inr (map char_of t)),
      mkdir_backup_root =
        (\<lambda>root. if writable then Inr (root @ u ''/.patchstudio_backups/20200101_000000'')
                 else Inl (PyExc (u ''[Errno 20] Not a directory: .patchstudio_backups'')))\<rparr>"

text \<open>The two counts of \<open>_detect_eol\<close>, and the CR LF line ending.\<close>

definition crlf_count :: "bytes \<Rightarrow> int" where
  "crlf_count data = py_count data [CHR 0x0D, CHR 0x0A]"

definition lf_count :: "bytes \<Rightarrow> int" where
  "lf_count data = py_count data [CHR 0x0A]"

definition CRLF :: pystr where
  "CRLF = [CR, LF]"

text \<open>
  Operation inference as the specification words it. \<open>has_key\<close>: the metadata contains
  the key; \<open>has_value\<close>: it holds a non-empty string under the key. In
  \<open>amended_operation\<close> the rename rule asks for a non-empty value, in
  \<open>claimed_operation\<close> for the key alone.
\<close>

definition has_key :: "metadata \<Rightarrow> string \<Rightarrow> bool" where
  "has_key md k = (md k \<noteq> None)"

definition has_value :: "metadata \<Rightarrow> string \<Rightarrow> bool" where
  "has_value md k = (\<exists>s. md k = Some (PyStr s) \<and> s \<noteq> [])"

definition amended_operation :: "pystr \<Rightarrow> pystr \<Rightarrow> metadata \<Rightarrow> operation" where
  "amended_operation old_p new_p md =
     (if has_key md ''new_file_mode'' \<or> old_p = DEV_NULL then Create
      else if has_key md ''deleted_file_mode'' \<or> new_p = DEV_NULL then Delete
      else if has_value md ''rename_from'' \<or> has_value md ''rename_to'' then Rename
      else if old_p \<noteq> new_p \<and> old_p \<noteq> DEV_NULL \<and> new_p \<noteq> DEV_NULL then Rename
      else Modify)"

definition claimed_operation :: "pystr \<Rightarrow> pystr \<Rightarrow> metadata \<Rightarrow> operation" where
  "claimed_operation old_p new_p md =
     (if has_key md ''new_file_mode'' \<or> old_p = DEV_NULL then Create
      else if has_key md ''deleted_file_mode'' \<or> new_p = DEV_NULL then Delete
      else if has_key md ''rename_from'' \<or> has_key md ''rename_to'' then Rename
      else if old_p \<noteq> new_p \<and> old_p \<noteq> DEV_NULL \<and> new_p \<noteq> DEV_NULL then Rename
      else Modify)"

definition mode_values_nonempty :: "metadata \<Rightarrow> bool" where
  "mode_values_nonempty md \<longleftrightarrow>
     (has_key md ''new_file_mode'' \<longrightarrow> has_value md ''new_file_mode'') \<and>
     (has_key md ''deleted_file_mode'' \<longrightarrow> has_value md ''deleted_file_mode'')"

definition empty_rename_text :: pystr where
  "empty_rename_text =
     u ''diff --git a/x b/x'' @ [LF] @ u ''rename from '' @ [LF] @ u ''--- a/x'' @ [LF] @
     u ''+++ b/x'' @ [LF]"

definition create_block :: block where
  "create_block =
     mk_block (Diff_git (u ''diff --git a/new.txt b/new.txt''))
       [u ''diff --git a/new.txt b/new.txt'', u ''new file mode 100644'', u ''--- /dev/null'',
        u ''+++ b/new.txt'', u ''@@ -0,0 +1,2 @@'', u ''+alpha'', u ''+beta'', []]
       DIALECT_GIT None"

text \<open>
  Classic block splitting. \<open>is_file_header lns i\<close>: line \<open>i\<close> begins with \<open>---\<close> and a
  space, and a line beginning with \<open>+++\<close> and a space stands at an index \<open>j\<close> with
  \<open>i < j < min(i + 60, len)\<close>, no line between them beginning with \<open>@@\<close> and a space.
  \<open>claimed_file_header\<close> is the claim's reading: within the next 60 lines, no line
  between beginning with \<open>@@\<close>. \<open>segments hs n\<close> pairs each position of \<open>hs\<close> with the
  next one, the last with \<open>n\<close>; \<open>classic_block_of\<close> is the block of the lines of such a
  segment.
\<close>

definition is_file_header :: "pystr list \<Rightarrow> nat \<Rightarrow> bool" where
  "is_file_header lns i \<longleftrightarrow>
     startswith (lns ! i) (u ''--- '') \<and>
     (\<exists>j. i < j \<and> j < min (i + 60) (length lns) \<and> startswith (lns ! j) (u ''+++ '') \<and>
          (\<forall>k. i < k \<and> k < j \<longrightarrow> \<not> startswith (lns ! k) (u ''@@ '')))"

definition claimed_file_header :: "pystr list \<Rightarrow> nat \<Rightarrow> bool" where
  "claimed_file_header lns i \<longleftrightarrow>
     startswith (lns ! i) (u ''--- '') \<and>
     (\<exists>j. i < j \<and> j \<le> i + 60 \<and> j < length lns \<and> startswith (lns ! j) (u ''+++ '') \<and>
          (\<forall>k. i < k \<and> k < j \<longrightarrow> \<not> startswith (lns ! k) (u ''@@'')))"

definition segments :: "nat list \<Rightarrow> nat \<Rightarrow> (nat \<times> nat) list" where
  "segments hs n = zip hs (tl hs @ [n])"

definition classic_block_of :: "pystr list \<Rightarrow> nat \<times> nat \<Rightarrow> block" where
  "classic_block_of lns =
     (\<lambda>(a, b). mk_block Classic_header (take (b - a) (drop a lns)) DIALECT_CLASSIC None)"

definition far_lines :: "pystr list" where
  "far_lines = u ''--- a'' # replicate 59 (u ''x'') @ [u ''+++ b'']"

definition far_text :: pystr where
  "far_text = py_join [LF] far_lines"

definition two_files_lines :: "pystr list" where
  "two_files_lines =
     [u ''junk'', u ''--- a'', u ''+++ a'', u ''@@ -1 +1 @@'', u ''--- x'', u ''@@ -9 +8 @@'',
      u ''-y'', u ''--- b'', u ''+++ b'', u ''@@ -1 +1 @@'', u ''+z'']"

definition two_files_text :: pystr where
  "two_files_text = py_join [LF] two_files_lines"

text \<open>
  The round trip of the repository's self test: the file \<open>data.json\<close> under the root
  \<open>/w\<close>, a patch set that changes its one line, the output of applying it, and the
  grouped opcodes that \<open>difflib\<close> computes for the two line lists of that file (one
  group: replace line 0, keep line 1). \<open>data_generated\<close> is the text the generator
  returns for them; \<open>glued_hunk\<close> and \<open>reparsed_fp\<close> are what the parser reads from that
  text.
\<close>

definition data_baseline :: pystr where
  "data_baseline = u ''{\"a\": 1, \"b\": 2}'' @ [LF]"

definition data_output :: pystr where
  "data_output = u ''{\"a\": 1, \"b\": 3}'' @ [LF]"

definition data_env :: "bool \<Rightarrow> pystr env" where
  "data_env writable = toy_env [(u ''/w/data.json'', data_baseline)] writable"

definition data_hunk :: hunk where
  "data_hunk =
     \<lparr>old_start = 1, old_count = 1, new_start = 1, new_count = 1, header = u ''@@ -1 +1 @@'',
      lines = [(u ''-'', u ''{\"a\": 1, \"b\": 2}''), (u ''+'', u ''{\"a\": 1, \"b\": 3}'')]\<rparr>"

definition data_fp :: filepatch where
  "data_fp =
     \<lparr>old_path = u ''data.json'', new_path = u ''data.json'', display_path = u ''data.json'',
      operation = Modify, hunks = [data_hunk],
      is_binary = False, binary_reason = [], metadata = Map.empty\<rparr>"

definition data_patchset :: patchset where
  "data_patchset = \<lparr>dialect = DIALECT_CLASSIC, files = [data_fp]\<rparr>"

definition selftest_matcher :: matcher where
  "selftest_matcher a b = [[(Op_replace, 0, 1, 0, 1), (Op_equal, 1, 2, 1, 2)]]"

definition data_generated :: pystr where
  "data_generated =
     u ''--- data.json'' @ [LF] @ u ''+++ data.json'' @ [LF] @ u ''@@ -1,2 +1,2 @@'' @ [LF] @
     u ''-{\"a\": 1, \"b\": 2}+{\"a\": 1, \"b\": 3} '' @ [LF]"

definition glued_hunk :: hunk where
  "glued_hunk =
     \<lparr>old_start = 1, old_count = 2, new_start = 1, new_count = 2,
      header = u ''@@ -1,2 +1,2 @@'',
      lines = [(u ''-'', u ''{\"a\": 1, \"b\": 2}+{\"a\": 1, \"b\": 3} ''),
               (u '' '', []), (u '' '', [])]\<rparr>"

definition reparsed_fp :: filepatch where
  "reparsed_fp =
     \<lparr>old_path = u ''data.json'', new_path = u ''data.json'', display_path = u ''data.json'',
      operation = Modify, hunks = [glued_hunk],
      is_binary = False, binary_reason = [], metadata = Map.empty\<rparr>"

section \<open>Auxiliary facts\<close>

lemma u_tags [simp]:
  "u '' '' \<noteq> u ''-''" "u '' '' \<noteq> u ''+''" "u ''-'' \<noteq> u ''+''"
  "u ''-'' \<noteq> u '' ''" "u ''+'' \<noteq> u '' ''" "u ''+'' \<noteq> u ''-''"
  by (simp_all add: u_def)

lemmas string_eval =
  u_def LF_def CR_def TAB_def SPACE_def BOM_def startswith_def endswith_def suffix_to_prefix
  isspace_def lstrip_chars_def rstrip_chars_def rstrip_def strip_def

lemmas locate_eval =
  locate_hunk_position_def hunk_anchors_match_def anchor_seq_def normalize_match_line_def
  fuzzy_candidates_def upto.simps Let_def

subsection \<open>Line endings\<close>

lemma replace_crlf: "py_replace [CR, LF] [LF] s = fold_crlf s"
  by (induction s rule: fold_crlf.induct) (auto simp: CR_def LF_def)

lemma replace_cr: "py_replace [CR] [LF] s = fold_cr s"
  by (induction s) (auto simp: fold_cr_def)

lemma strip_bom_all:
  "(if startswith s [BOM] then lstrip_chars (\<lambda>c. c = BOM) s else s) = dropWhile (\<lambda>c. c = BOM) s"
  by (cases s) (auto simp: startswith_def lstrip_chars_def)

subsection \<open>The locator\<close>

lemma anchor_seq_insertion_only: "insertion_only h \<Longrightarrow> anchor_seq h = []"
  by (auto simp: insertion_only_def anchor_seq_def filter_empty_conv list_all_iff)

lemma hd_sort_key_min:
  fixes f :: "'a \<Rightarrow> 'k::linorder"
  assumes "xs \<noteq> []"
  shows "hd (sort_key f xs) \<in> set xs \<and> (\<forall>y\<in>set xs. f (hd (sort_key f xs)) \<le> f y)"
proof -
  let ?s = "sort_key f xs"
  have "?s \<noteq> []" using assms by (metis length_0_conv length_sort)
  then obtain z zs where s: "?s = z # zs" by (cases ?s) auto
  have "sorted (map f ?s)" by (rule sorted_sort_key)
  with s have "\<forall>y\<in>set zs. f z \<le> f y" by auto
  moreover have "set ?s = set xs" by simp
  ultimately show ?thesis using s by (metis list.sel(1) list.set_intros(1) order_refl set_ConsD)
qed

lemma set_fuzzy_candidates:
  "set (fuzzy_candidates lns h pos ignore_ws w) = window_matches lns h pos ignore_ws w"
  by (auto simp: fuzzy_candidates_def window_matches_def)

text \<open>
  The position the locator returns is an index into the buffer or its length, never
  negative: \<open>_apply_hunk_at\<close> is called with a natural number.
\<close>

lemma located_in_range:
  assumes "fst (locate_hunk_position lns h expected_pos ignore_ws fuzzy w) = Some p"
  shows "0 \<le> p \<and> p \<le> int (length lns)"
proof -
  let ?pos = "min (max expected_pos 0) (int (length lns))"
  let ?C = "fuzzy_candidates lns h ?pos ignore_ws w"
  show ?thesis
  proof (cases "hunk_anchors_match lns h ?pos ignore_ws")
    case True
    with assms show ?thesis by (auto simp: locate_hunk_position_def Let_def)
  next
    case False
    with assms have ne: "?C \<noteq> []" and p: "p = hd (sort_key (\<lambda>x. (\<bar>x - ?pos\<bar>, x)) ?C)"
      by (auto simp: locate_hunk_position_def Let_def split: if_splits)
    from hd_sort_key_min[OF ne, of "\<lambda>x. (\<bar>x - ?pos\<bar>, x)"] p have "p \<in> set ?C" by simp
    then show ?thesis by (auto simp: fuzzy_candidates_def)
  qed
qed

subsection \<open>Applying one hunk\<close>

lemma anchor_seq_alt: "anchor_seq h = filter is_anchor (lines h)"
  by (simp add: anchor_seq_def is_anchor_def)

lemma loop_ok_iff:
  "(\<exists>r. apply_hunk_loop lns ws hl i out = Inr r) \<longleftrightarrow> anchors_loop lns i (filter is_anchor hl) ws"
  by (induction lns ws hl i out rule: apply_hunk_loop.induct) (auto simp: is_anchor_def)

lemma loop_ok_result:
  "apply_hunk_loop lns ws hl i out = Inr (i', out') \<Longrightarrow>
     i' = i + length (filter is_anchor hl) \<and> out' = out @ patched lns i hl"
  by (induction lns ws hl i out rule: apply_hunk_loop.induct)
     (auto simp: is_anchor_def split: if_splits)

lemma loop_fail_first:
  "apply_hunk_loop lns ws hl i out = Inl mm \<Longrightarrow>
     \<exists>j < length (filter is_anchor hl).
        anchors_loop lns i (take j (filter is_anchor hl)) ws \<and> mismatch_at mm = i + j \<and>
        (i + j \<ge> length lns \<or>
         normalize_match_line (snd (filter is_anchor hl ! j)) ws \<noteq>
           normalize_match_line (lns ! (i + j)) ws)"
proof (induction lns ws hl i out rule: apply_hunk_loop.induct)
  case (1 lns ignore_ws i out)
  then show ?case by simp
next
  case (2 lns ignore_ws t s rest i out)
  show ?case
  proof (cases "is_anchor (t, s)")
    case False
    then have "apply_hunk_loop lns ignore_ws rest i (if t = u ''+'' then out @ [s] else out) = Inl mm"
      using 2(5) by (auto simp: is_anchor_def split: if_splits)
    then have "\<exists>j<length (filter is_anchor rest).
       anchors_loop lns i (take j (filter is_anchor rest)) ignore_ws \<and> mismatch_at mm = i + j \<and>
       (length lns \<le> i + j \<or> normalize_match_line (snd (filter is_anchor rest ! j)) ignore_ws \<noteq>
        normalize_match_line (lns ! (i + j)) ignore_ws)"
      using 2(3,4) False by (auto simp: is_anchor_def split: if_splits)
    with False show ?thesis by simp
  next
    case anchor: True
    show ?thesis
    proof (cases "i \<ge> length lns \<or>
        normalize_match_line s ignore_ws \<noteq> normalize_match_line (lns ! i) ignore_ws")
      case True
      with anchor 2(5) have "mismatch_at mm = i"
        by (auto simp: is_anchor_def split: if_splits)
      with True anchor show ?thesis
        by (intro exI[of _ 0]) auto
    next
      case False
      with anchor 2(5)
      have "apply_hunk_loop lns ignore_ws rest (i + 1)
              (if t = u '' '' then out @ [lns ! i] else out) = Inl mm"
        by (auto simp: is_anchor_def split: if_splits)
      then obtain j where j: "j < length (filter is_anchor rest)"
        "anchors_loop lns (i + 1) (take j (filter is_anchor rest)) ignore_ws"
        "mismatch_at mm = i + 1 + j"
        "length lns \<le> i + 1 + j \<or>
           normalize_match_line (snd (filter is_anchor rest ! j)) ignore_ws \<noteq>
           normalize_match_line (lns ! (i + 1 + j)) ignore_ws"
        using 2(1,2) False anchor by (fastforce simp: is_anchor_def split: if_splits)
      with False anchor show ?thesis
        by (intro exI[of _ "Suc j"]) auto
    qed
  qed
qed

lemma apply_hunk_at_cases:
  "(anchors_loop lns pos (anchor_seq h) ws \<and>
      apply_hunk_at lns h pos ws =
        (True, take pos lns @ patched lns pos (lines h) @ drop (pos + length (anchor_seq h)) lns,
         hunk_delta h, None))
   \<or> (\<not> anchors_loop lns pos (anchor_seq h) ws \<and>
      (\<exists>mm. apply_hunk_at lns h pos ws = (False, lns, 0, Some mm) \<and>
         (\<exists>j < length (anchor_seq h).
            anchors_loop lns pos (take j (anchor_seq h)) ws \<and> mismatch_at mm = pos + j \<and>
            (pos + j \<ge> length lns \<or>
             normalize_match_line (snd (anchor_seq h ! j)) ws \<noteq>
               normalize_match_line (lns ! (pos + j)) ws))))"
proof (cases "apply_hunk_loop lns ws (lines h) pos (take pos lns)")
  case (Inl mm)
  then have "\<not> anchors_loop lns pos (anchor_seq h) ws"
    using loop_ok_iff[of lns ws "lines h" pos "take pos lns"] by (simp add: anchor_seq_alt)
  with Inl loop_fail_first[OF Inl] show ?thesis
    by (auto simp: apply_hunk_at_def anchor_seq_alt)
next
  case (Inr r)
  obtain i2 o2 where r: "r = (i2, o2)" by (cases r)
  from Inr have "anchors_loop lns pos (anchor_seq h) ws"
    using loop_ok_iff[of lns ws "lines h" pos "take pos lns"] by (auto simp add: anchor_seq_alt)
  with Inr r loop_ok_result[of lns ws "lines h" pos "take pos lns" i2 o2] show ?thesis
    by (auto simp: apply_hunk_at_def anchor_seq_alt hunk_delta_def)
qed

lemma heap_loop_rel:
  "a \<noteq> out \<Longrightarrow> out < length hp \<Longrightarrow>
   (\<exists>X. snd (snd (apply_hunk_loop_heap hp a out ws hl i)) = hp[out := X]) \<and>
   (case apply_hunk_loop (hp ! a) ws hl i (hp ! out) of
      Inl m \<Rightarrow> fst (apply_hunk_loop_heap hp a out ws hl i) = Some m
    | Inr (i2, o2) \<Rightarrow> apply_hunk_loop_heap hp a out ws hl i = (None, i2, hp[out := o2]))"
proof (induction hp a out ws hl i rule: apply_hunk_loop_heap.induct)
  case (1 hp a out ignore_ws i)
  then show ?case by (auto intro: exI[of _ "hp ! out"])
next
  case (2 hp a out ignore_ws t s rest i)
  have triv: "\<exists>X. hp = hp[out := X]" by (rule exI[of _ "hp ! out"]) simp
  consider (ctx) "t = u '' ''" | (del) "t = u ''-''" | (add) "t = u ''+''"
    | (other) "t \<noteq> u '' ''" "t \<noteq> u ''-''" "t \<noteq> u ''+''" by blast
  then show ?case
  proof cases
    case ctx
    show ?thesis
    proof (cases "i \<ge> length (hp ! a) \<or>
        normalize_match_line s ignore_ws \<noteq> normalize_match_line (hp ! a ! i) ignore_ws")
      case True
      then show ?thesis using ctx triv by auto
    next
      case False
      let ?hp = "hp[out := hp ! out @ [hp ! a ! i]]"
      have "(\<exists>X. snd (snd (apply_hunk_loop_heap ?hp a out ignore_ws rest (i + 1))) = ?hp[out := X]) \<and>
        (case apply_hunk_loop (?hp ! a) ignore_ws rest (i + 1) (?hp ! out) of
           Inl m \<Rightarrow> fst (apply_hunk_loop_heap ?hp a out ignore_ws rest (i + 1)) = Some m
         | Inr (i2, o2) \<Rightarrow>
             apply_hunk_loop_heap ?hp a out ignore_ws rest (i + 1) = (None, i2, ?hp[out := o2]))"
        using 2(1)[OF ctx] False 2(5,6) by auto
      then show ?thesis using ctx False 2(5,6) by (auto split: sum.splits)
    qed
  next
    case del
    show ?thesis
    proof (cases "i \<ge> length (hp ! a) \<or>
        normalize_match_line s ignore_ws \<noteq> normalize_match_line (hp ! a ! i) ignore_ws")
      case True
      then show ?thesis using del triv by auto
    next
      case False
      have "(\<exists>X. snd (snd (apply_hunk_loop_heap hp a out ignore_ws rest (i + 1))) = hp[out := X]) \<and>
        (case apply_hunk_loop (hp ! a) ignore_ws rest (i + 1) (hp ! out) of
           Inl m \<Rightarrow> fst (apply_hunk_loop_heap hp a out ignore_ws rest (i + 1)) = Some m
         | Inr (i2, o2) \<Rightarrow>
             apply_hunk_loop_heap hp a out ignore_ws rest (i + 1) = (None, i2, hp[out := o2]))"
        using 2(2) del False 2(5,6) by auto
      then show ?thesis using del False by (auto split: sum.splits)
    qed
  next
    case add
    let ?hp = "hp[out := hp ! out @ [s]]"
    have "(\<exists>X. snd (snd (apply_hunk_loop_heap ?hp a out ignore_ws rest i)) = ?hp[out := X]) \<and>
        (case apply_hunk_loop (?hp ! a) ignore_ws rest i (?hp ! out) of
           Inl m \<Rightarrow> fst (apply_hunk_loop_heap ?hp a out ignore_ws rest i) = Some m
         | Inr (i2, o2) \<Rightarrow>
             apply_hunk_loop_heap ?hp a out ignore_ws rest i = (None, i2, ?hp[out := o2]))"
      using 2(3) add 2(5,6) by auto
    then show ?thesis using add 2(5,6) by (auto split: sum.splits)
  next
    case other
    have "(\<exists>X. snd (snd (apply_hunk_loop_heap hp a out ignore_ws rest i)) = hp[out := X]) \<and>
        (case apply_hunk_loop (hp ! a) ignore_ws rest i (hp ! out) of
           Inl m \<Rightarrow> fst (apply_hunk_loop_heap hp a out ignore_ws rest i) = Some m
         | Inr (i2, o2) \<Rightarrow>
             apply_hunk_loop_heap hp a out ignore_ws rest i = (None, i2, hp[out := o2]))"
      using 2(4) other 2(5,6) by auto
    then show ?thesis using other by (auto split: sum.splits)
  qed
qed

lemma heap_at_rel:
  assumes "a < length hp"
    and res: "apply_hunk_at_heap hp a h pos ws = ((ok, r, delta, mm), hp')"
  shows "take (length hp) hp' = hp \<and> length hp' = length hp + 1 \<and>
     (ok, hp' ! r, delta, mm) = apply_hunk_at (hp ! a) h pos ws \<and>
     r = (if ok then length hp else a)"
proof -
  let ?out = "length hp"
  let ?hp2 = "hp @ [take pos (hp ! a)]"
  have hp2: "(hp @ [[]])[?out := (hp @ [[]]) ! ?out @ take pos ((hp @ [[]]) ! a)] = ?hp2"
    using assms by (simp add: nth_append)
  have ne: "a \<noteq> ?out" using assms by simp
  have rel: "(\<exists>X. snd (snd (apply_hunk_loop_heap ?hp2 a ?out ws (lines h) pos)) = ?hp2[?out := X]) \<and>
   (case apply_hunk_loop (?hp2 ! a) ws (lines h) pos (?hp2 ! ?out) of
      Inl m \<Rightarrow> fst (apply_hunk_loop_heap ?hp2 a ?out ws (lines h) pos) = Some m
    | Inr (i2, o2) \<Rightarrow>
        apply_hunk_loop_heap ?hp2 a ?out ws (lines h) pos = (None, i2, ?hp2[?out := o2]))"
    by (rule heap_loop_rel[OF ne]) simp
  have a2: "?hp2 ! a = hp ! a" "?hp2 ! ?out = take pos (hp ! a)"
    using assms by (simp_all add: nth_append)
  obtain m i3 hp3 where l: "apply_hunk_loop_heap ?hp2 a ?out ws (lines h) pos = (m, i3, hp3)"
    by (cases "apply_hunk_loop_heap ?hp2 a ?out ws (lines h) pos") auto
  from rel l obtain X where X: "hp3 = hp @ [X]" by auto
  have unf: "apply_hunk_at_heap hp a h pos ws =
     (case (m, i3, hp3) of
        (Some mm, i, hp3) \<Rightarrow> ((False, a, 0, Some mm), hp3)
      | (None, i, hp3) \<Rightarrow>
          ((True, ?out, count_tag (lines h) (u ''+'') - count_tag (lines h) (u ''-''), None),
           hp3[?out := hp3 ! ?out @ drop i (hp3 ! a)]))"
    unfolding apply_hunk_at_heap_def Let_def hp2 l ..
  show ?thesis
  proof (cases "apply_hunk_loop (hp ! a) ws (lines h) pos (take pos (hp ! a))")
    case (Inl e)
    with rel a2 l have "m = Some e" by simp
    with unf res X have "ok = False" "r = a" "delta = 0" "mm = Some e" "hp' = hp @ [X]"
      by simp_all
    with Inl assms(1) show ?thesis by (simp add: apply_hunk_at_def nth_append)
  next
    case (Inr q)
    obtain i2 o2 where q: "q = (i2, o2)" by (cases q)
    with rel a2 l Inr have m: "m = None" "i3 = i2" "hp3 = ?hp2[?out := o2]" by simp_all
    with X have Xo: "X = o2" by simp
    from unf res X m Xo assms(1) have "ok = True" "r = ?out"
       "delta = count_tag (lines h) (u ''+'') - count_tag (lines h) (u ''-'')" "mm = None"
       "hp' = hp @ [o2 @ drop i2 (hp ! a)]" by (simp_all add: nth_append)
    with Inr q assms(1) show ?thesis by (simp add: apply_hunk_at_def)
  qed
qed

subsection \<open>The loop over the hunks of a file\<close>

lemma flags_simps [simp]:
  "conflicted (diagnostics (add_detail e st)) = conflicted (diagnostics st)"
  "failed (diagnostics (add_detail e st)) = failed (diagnostics st)"
  "conflicted (diagnostics (conflict_fallback p h st)) = True"
  "failed (diagnostics (set_failed st)) = True"
  "conflicted (diagnostics (hunk_applied h n d st)) = conflicted (diagnostics st)"
  "failed (diagnostics (hunk_applied h n d st)) = failed (diagnostics st)"
  "failed (diagnostics (conflict_fallback p h st)) = failed (diagnostics st)"
  "conflicted (diagnostics (set_failed st)) = conflicted (diagnostics st)"
  "line_offset (hunk_applied h n d st) = line_offset st + d"
  "hunks_applied (stats (hunk_applied h n d st)) = hunks_applied (stats st) + 1"
  by (simp_all add: add_detail_def conflict_fallback_def set_failed_def hunk_applied_def)

lemma apply_hunk_at_delta:
  "apply_hunk_at lns h pos ws = (True, out, delta, mm) \<Longrightarrow> delta = hunk_delta h"
  by (auto simp: apply_hunk_at_def hunk_delta_def split: sum.splits prod.splits)

lemma conflicted_mono:
  "conflicted (diagnostics st) \<Longrightarrow> conflicted (diagnostics (hunks_loop opts i hs st))"
  by (induction hs arbitrary: i st)
     (auto simp: Let_def split: prod.splits option.splits bool.splits)

lemma failed_mono:
  "failed (diagnostics st) \<Longrightarrow> failed (diagnostics (hunks_loop opts i hs st))"
  by (induction hs arbitrary: i st)
     (auto simp: Let_def split: prod.splits option.splits bool.splits)

lemma offset_loop:
  "\<not> failed (diagnostics (hunks_loop opts i hs st)) \<Longrightarrow>
   \<not> conflicted (diagnostics (hunks_loop opts i hs st)) \<Longrightarrow>
   line_offset (hunks_loop opts i hs st) = line_offset st + (\<Sum>h\<leftarrow>hs. hunk_delta h) \<and>
   hunks_applied (stats (hunks_loop opts i hs st)) = hunks_applied (stats st) + int (length hs)"
proof (induction hs arbitrary: i st)
  case Nil
  then show ?case by simp
next
  case (Cons h hs)
  let ?e = "max 0 ((old_start h - 1) + line_offset st)"
  show ?case
  proof (cases "locate_hunk_position (out_lines st) h ?e
                  (ignore_whitespace_differences opts) (best_effort_fuzzy_apply opts)
                  (fuzzy_window_size opts)")
    case (Pair ap dec)
    show ?thesis
    proof (cases ap)
      case None
      with Pair Cons.prems show ?thesis
        using conflicted_mono[of "conflict_fallback ?e h
           (add_detail (build_mismatch_diag (out_lines st) h ?e dec i None) st)" opts "i + 1" hs]
        by (auto simp: Let_def split: if_splits)
    next
      case (Some p)
      obtain ok new_out delta mm where a:
        "apply_hunk_at (out_lines st) h (nat p) (ignore_whitespace_differences opts) =
           (ok, new_out, delta, mm)"
        by (cases "apply_hunk_at (out_lines st) h (nat p) (ignore_whitespace_differences opts)") auto
      show ?thesis
      proof (cases ok)
        case True
        with a have d: "delta = hunk_delta h"
          using apply_hunk_at_delta[of "out_lines st" h "nat p"
                  "ignore_whitespace_differences opts" new_out delta mm] by simp
        from Pair Some a True Cons.prems
        have p1: "\<not> failed (diagnostics (hunks_loop opts (i + 1) hs (hunk_applied h new_out delta st)))"
          and p2: "\<not> conflicted (diagnostics (hunks_loop opts (i + 1) hs (hunk_applied h new_out delta st)))"
          by (auto simp: Let_def)
        from Cons.IH[OF p1 p2] Pair Some a True d show ?thesis by (simp add: Let_def)
      next
        case False
        with Pair Some a Cons.prems show ?thesis
          using conflicted_mono[of "conflict_fallback p h
             (add_detail (build_mismatch_diag (out_lines st) h p dec i mm) st)" opts "i + 1" hs]
          by (auto simp: Let_def split: if_splits)
      qed
    qed
  qed
qed

text \<open>
  The state after the first hunks of a file is the state of the loop run on that
  prefix: the loop over a longer list goes on from there, unless it has returned.
\<close>

lemma hunks_loop_append:
  "\<not> failed (diagnostics st) \<Longrightarrow>
   hunks_loop opts i (xs @ ys) st =
     (if failed (diagnostics (hunks_loop opts i xs st)) then hunks_loop opts i xs st
      else hunks_loop opts (i + length xs) ys (hunks_loop opts i xs st))"
proof (induction xs arbitrary: i st)
  case Nil
  then show ?case by simp
next
  case (Cons h xs)
  then show ?case
    by (auto simp: Let_def split: prod.splits option.splits bool.splits)
qed

subsection \<open>Splitting and joining\<close>

lemma py_split_nosep: "sep \<notin> set x \<Longrightarrow> py_split x sep = [x]"
  by (induction x) auto

lemma py_split_append: "sep \<notin> set x \<Longrightarrow> py_split (x @ sep # r) sep = x # py_split r sep"
  by (induction x) auto

lemma split_join:
  "xs \<noteq> [] \<Longrightarrow> \<forall>x\<in>set xs. sep \<notin> set x \<Longrightarrow> py_split (py_join [sep] xs) sep = xs"
proof (induction xs)
  case Nil
  then show ?case by simp
next
  case (Cons x xs)
  show ?case
  proof (cases xs)
    case Nil
    with Cons.prems show ?thesis by (simp add: py_split_nosep)
  next
    case (Cons y ys)
    with Cons.prems Cons.IH show ?thesis by (simp add: py_split_append)
  qed
qed

subsection \<open>Classic blocks\<close>

lemma find_ppp_iff:
  "find_ppp lns j lim \<longleftrightarrow>
     (\<exists>m. j \<le> m \<and> m < lim \<and> startswith (lns ! m) (u ''+++ '') \<and>
          (\<forall>k. j \<le> k \<and> k < m \<longrightarrow> \<not> startswith (lns ! k) (u ''@@ '')))"
proof (induction lns j lim rule: find_ppp.induct)
  case (1 lns j lim)
  show ?case
  proof (cases "j < lim")
    case False
    then show ?thesis by (subst find_ppp.simps) auto
  next
    case lt: True
    show ?thesis
    proof (cases "startswith (lns ! j) (u ''+++ '')")
      case True
      then have "find_ppp lns j lim" using lt by (subst find_ppp.simps) simp
      moreover have "\<exists>m. j \<le> m \<and> m < lim \<and> startswith (lns ! m) (u ''+++ '') \<and>
          (\<forall>k. j \<le> k \<and> k < m \<longrightarrow> \<not> startswith (lns ! k) (u ''@@ ''))"
        using True lt by (intro exI[of _ j]) auto
      ultimately show ?thesis by simp
    next
      case np: False
      show ?thesis
      proof (cases "startswith (lns ! j) (u ''@@ '')")
        case True
        then have "\<not> find_ppp lns j lim" using lt np by (subst find_ppp.simps) simp
        moreover have "\<not> (\<exists>m. j \<le> m \<and> m < lim \<and> startswith (lns ! m) (u ''+++ '') \<and>
          (\<forall>k. j \<le> k \<and> k < m \<longrightarrow> \<not> startswith (lns ! k) (u ''@@ '')))"
        proof
          assume "\<exists>m. j \<le> m \<and> m < lim \<and> startswith (lns ! m) (u ''+++ '') \<and>
          (\<forall>k. j \<le> k \<and> k < m \<longrightarrow> \<not> startswith (lns ! k) (u ''@@ ''))"
          then obtain m where m: "j \<le> m" "m < lim" "startswith (lns ! m) (u ''+++ '')"
            "\<forall>k. j \<le> k \<and> k < m \<longrightarrow> \<not> startswith (lns ! k) (u ''@@ '')" by blast
          with np have "j \<noteq> m" by auto
          with m(1) have "j < m" by simp
          with m(4) True show False by auto
        qed
        ultimately show ?thesis by simp
      next
        case na: False
        have step: "find_ppp lns j lim = find_ppp lns (j + 1) lim"
          using lt np na by (subst find_ppp.simps) simp
        have ih: "find_ppp lns (j + 1) lim \<longleftrightarrow>
           (\<exists>m. j + 1 \<le> m \<and> m < lim \<and> startswith (lns ! m) (u ''+++ '') \<and>
             (\<forall>k. j + 1 \<le> k \<and> k < m \<longrightarrow> \<not> startswith (lns ! k) (u ''@@ '')))"
          using 1 lt np na by simp
        have "(\<exists>m. j + 1 \<le> m \<and> m < lim \<and> startswith (lns ! m) (u ''+++ '') \<and>
             (\<forall>k. j + 1 \<le> k \<and> k < m \<longrightarrow> \<not> startswith (lns ! k) (u ''@@ ''))) \<longleftrightarrow>
           (\<exists>m. j \<le> m \<and> m < lim \<and> startswith (lns ! m) (u ''+++ '') \<and>
             (\<forall>k. j \<le> k \<and> k < m \<longrightarrow> \<not> startswith (lns ! k) (u ''@@ '')))"
          (is "?L \<longleftrightarrow> ?R")
        proof
          assume ?L
          then obtain m where m: "j + 1 \<le> m" "m < lim" "startswith (lns ! m) (u ''+++ '')"
            "\<forall>k. j + 1 \<le> k \<and> k < m \<longrightarrow> \<not> startswith (lns ! k) (u ''@@ '')" by blast
          have "\<forall>k. j \<le> k \<and> k < m \<longrightarrow> \<not> startswith (lns ! k) (u ''@@ '')"
          proof (intro allI impI)
            fix k assume k: "j \<le> k \<and> k < m"
            show "\<not> startswith (lns ! k) (u ''@@ '')"
            proof (cases "k = j")
              case True then show ?thesis using na by simp
            next
              case False then show ?thesis using k m(4) by auto
            qed
          qed
          with m show ?R by (intro exI[of _ m]) auto
        next
          assume ?R
          then obtain m where m: "j \<le> m" "m < lim" "startswith (lns ! m) (u ''+++ '')"
            "\<forall>k. j \<le> k \<and> k < m \<longrightarrow> \<not> startswith (lns ! k) (u ''@@ '')" by blast
          with np have "j \<noteq> m" by auto
          with m show ?L by (intro exI[of _ m]) auto
        qed
        with step ih show ?thesis by simp
      qed
    qed
  qed
qed

lemma header_test:
  "(startswith (lns ! i) (u ''--- '') \<and> find_ppp lns (i + 1) (min (i + 60) (length lns)))
     = is_file_header lns i"
  unfolding is_file_header_def find_ppp_iff by (auto simp: Suc_le_eq)

lemma segments_Cons2: "segments (a # b # hs) n = (a, b) # segments (b # hs) n"
  by (simp add: segments_def)

lemma length_segments: "length (segments hs n) = length hs"
  by (cases hs) (simp_all add: segments_def)

lemma slice_snoc:
  "a \<le> i \<Longrightarrow> i < length lns \<Longrightarrow>
   take (i - a) (drop a lns) @ [lns ! i] = take (Suc i - a) (drop a lns)"
  by (simp add: Suc_diff_le take_Suc_conv_app_nth)

text \<open>
  The loop of \<open>_split_classic_blocks\<close> at index \<open>i\<close>: with no block open it emits the
  blocks of the headers from \<open>i\<close> on; with the block open that started at \<open>a\<close> and
  holds the lines from \<open>a\<close> to \<open>i\<close>, that block ends at the next header.
\<close>

lemma classic_loop_inv:
  "i \<le> length lns \<Longrightarrow>
   (cur = [] \<longrightarrow>
      split_classic_loop lns i blocks cur hdr =
        blocks @ map (classic_block_of lns)
                   (segments (filter (is_file_header lns) [i..<length lns]) (length lns))) \<and>
   (\<forall>a. a < i \<and> cur = take (i - a) (drop a lns) \<and> hdr = Classic_header \<longrightarrow>
      split_classic_loop lns i blocks cur hdr =
        blocks @ map (classic_block_of lns)
                   (segments (a # filter (is_file_header lns) [i..<length lns]) (length lns)))"
proof (induction lns i blocks cur hdr rule: split_classic_loop.induct)
  case (1 lns i blocks cur cur_header)
  let ?n = "length lns"
  let ?H = "is_file_header lns"
  show ?case
  proof (cases "i < ?n")
    case False
    with 1(6) have i: "i = ?n" by simp
    show ?thesis using i
      by (subst split_classic_loop.simps, subst split_classic_loop.simps)
         (auto simp: segments_def classic_block_of_def)
  next
    case lt: True
    then have upt: "[i..<?n] = i # [i + 1..<?n]" by (simp add: upt_conv_Cons)
    have nonempty: "\<And>a. a < i \<Longrightarrow> take (i - a) (drop a lns) \<noteq> []" using lt by simp
    show ?thesis
    proof (cases "?H i")
      case True
      then have sw: "startswith (lns ! i) (u ''--- '')"
        and fp: "find_ppp lns (i + 1) (min (i + 60) ?n)"
        using header_test[of lns i] by auto
      have ih: "\<forall>a. a < i + 1 \<and> [lns ! i] = take (i + 1 - a) (drop a lns) \<longrightarrow>
          split_classic_loop lns (i + 1)
            (if cur \<noteq> [] then blocks @ [mk_block cur_header cur DIALECT_CLASSIC None] else blocks)
            [lns ! i] Classic_header =
          (if cur \<noteq> [] then blocks @ [mk_block cur_header cur DIALECT_CLASSIC None] else blocks) @
            map (classic_block_of lns) (segments (a # filter ?H [i + 1..<?n]) ?n)"
        using 1(1)[OF lt sw fp] lt by simp
      have one: "[lns ! i] = take (i + 1 - i) (drop i lns)"
        using lt by (simp add: take_Suc_conv_app_nth Cons_nth_drop_Suc[symmetric])
      have run: "split_classic_loop lns (i + 1)
            (if cur \<noteq> [] then blocks @ [mk_block cur_header cur DIALECT_CLASSIC None] else blocks)
            [lns ! i] Classic_header =
          (if cur \<noteq> [] then blocks @ [mk_block cur_header cur DIALECT_CLASSIC None] else blocks) @
            map (classic_block_of lns) (segments (i # filter ?H [i + 1..<?n]) ?n)"
        using ih[rule_format, of i] one by simp
      have unf: "split_classic_loop lns i blocks cur cur_header = split_classic_loop lns (i + 1)
            (if cur \<noteq> [] then blocks @ [mk_block cur_header cur DIALECT_CLASSIC None] else blocks)
            [lns ! i] Classic_header"
        using lt sw fp by (subst split_classic_loop.simps) simp
      show ?thesis
        using unf run True upt nonempty
        by (auto simp: segments_Cons2 classic_block_of_def)
    next
      case False
      have unf: "split_classic_loop lns i blocks cur cur_header =
         split_classic_loop lns (i + 1) blocks (if cur \<noteq> [] then cur @ [lns ! i] else cur)
           cur_header"
        using lt False header_test[of lns i] by (subst split_classic_loop.simps) auto
      have ihs: "(if cur \<noteq> [] then cur @ [lns ! i] else cur) = [] \<longrightarrow>
          split_classic_loop lns (i + 1) blocks (if cur \<noteq> [] then cur @ [lns ! i] else cur)
            cur_header =
            blocks @ map (classic_block_of lns) (segments (filter ?H [i + 1..<?n]) ?n)"
        and ihb: "\<forall>a. a < i + 1 \<and>
             (if cur \<noteq> [] then cur @ [lns ! i] else cur) = take (i + 1 - a) (drop a lns) \<and>
             cur_header = Classic_header \<longrightarrow>
          split_classic_loop lns (i + 1) blocks (if cur \<noteq> [] then cur @ [lns ! i] else cur)
            cur_header =
            blocks @ map (classic_block_of lns) (segments (a # filter ?H [i + 1..<?n]) ?n)"
        using 1(2,3,4,5) lt False header_test[of lns i]
        by (cases "cur = []"; cases "startswith (lns ! i) (u ''--- '')"; simp)+
      show ?thesis
      proof (intro conjI impI allI)
        assume "cur = []"
        with unf ihs False upt show "split_classic_loop lns i blocks cur cur_header =
          blocks @ map (classic_block_of lns) (segments (filter ?H [i..<?n]) ?n)" by simp
      next
        fix a assume a: "a < i \<and> cur = take (i - a) (drop a lns) \<and> cur_header = Classic_header"
        then have ne: "cur \<noteq> []" using nonempty by simp
        from a lt have snoc: "cur @ [lns ! i] = take (i + 1 - a) (drop a lns)"
          using slice_snoc[of a i lns] by simp
        have "split_classic_loop lns (i + 1) blocks (cur @ [lns ! i]) cur_header =
            blocks @ map (classic_block_of lns) (segments (a # filter ?H [i + 1..<?n]) ?n)"
          using ihb[rule_format, of a] a ne snoc by simp
        with unf ne False upt show "split_classic_loop lns i blocks cur cur_header =
          blocks @ map (classic_block_of lns) (segments (a # filter ?H [i..<?n]) ?n)" by simp
      qed
    qed
  qed
qed

lemma far_split: "py_split far_text LF = far_lines"
  unfolding far_text_def
proof (rule split_join)
  show "far_lines \<noteq> []" by (simp add: far_lines_def)
  show "\<forall>x\<in>set far_lines. LF \<notin> set x" by (auto simp: far_lines_def u_def LF_def)
qed

lemma far_nth:
  "far_lines ! 0 = u ''--- a''"
  "0 < k \<Longrightarrow> k < 60 \<Longrightarrow> far_lines ! k = u ''x''"
  "far_lines ! 60 = u ''+++ b''"
  "length far_lines = 61"
  by (auto simp: far_lines_def nth_Cons' nth_append)

lemma far_no_header: "i < 61 \<Longrightarrow> \<not> is_file_header far_lines i"
proof
  assume i: "i < 61" and h: "is_file_header far_lines i"
  from h have sw: "startswith (far_lines ! i) (u ''--- '')" by (simp add: is_file_header_def)
  have "i = 0"
  proof (rule ccontr)
    assume "i \<noteq> 0"
    then have "far_lines ! i = u ''x'' \<or> far_lines ! i = u ''+++ b''"
      using i far_nth(2)[of i] far_nth(3) by (cases "i = 60") auto
    with sw show False by (auto simp: startswith_def u_def)
  qed
  with h obtain j where j: "0 < j" "j < 60" "startswith (far_lines ! j) (u ''+++ '')"
    by (auto simp: is_file_header_def far_nth)
  then show False using far_nth(2)[of j] by (simp add: startswith_def u_def)
qed

lemma two_split: "py_split two_files_text LF = two_files_lines"
  unfolding two_files_text_def
proof (rule split_join)
  show "two_files_lines \<noteq> []" by (simp add: two_files_lines_def)
  show "\<forall>x\<in>set two_files_lines. LF \<notin> set x"
    by (simp add: two_files_lines_def u_def LF_def)
qed

subsection \<open>Operation inference\<close>

lemma truthy_has_value: "truthy (md_get md k) = has_value md k"
  by (cases "md k") (auto simp: md_get_def has_value_def elim: truthy.elims)

lemma infer_amended:
  "mode_values_nonempty md \<Longrightarrow>
   infer_operation old_p new_p md = amended_operation old_p new_p md"
  by (auto simp: infer_operation_def amended_operation_def truthy_has_value
        mode_values_nonempty_def has_key_def has_value_def)

lemma in_dropWhile: "x \<in> set xs \<Longrightarrow> \<not> P x \<Longrightarrow> x \<in> set (dropWhile P xs)"
  by (induction xs) auto

lemma strip_nonempty: "x \<in> set s \<Longrightarrow> \<not> isspace x \<Longrightarrow> strip s \<noteq> []"
proof -
  assume x: "x \<in> set s" "\<not> isspace x"
  then have "x \<in> set (dropWhile isspace (rev s))" by (simp add: in_dropWhile)
  then have "x \<in> set (rstrip_chars isspace s)" by (simp add: rstrip_chars_def)
  with x(2) have "x \<in> set (strip s)" by (simp add: strip_def lstrip_chars_def in_dropWhile)
  then show ?thesis by auto
qed

lemma strip_mode_line:
  "startswith ln (u ''new file mode '') \<or> startswith ln (u ''deleted file mode '') \<Longrightarrow>
   strip ln \<noteq> []"
proof -
  assume "startswith ln (u ''new file mode '') \<or> startswith ln (u ''deleted file mode '')"
  then have "110 \<in> set ln \<or> 100 \<in> set ln"
    by (auto simp: startswith_def u_def prefix_def)
  moreover have "\<not> isspace 110" "\<not> isspace 100" by (simp_all add: isspace_def)
  ultimately show ?thesis using strip_nonempty by blast
qed

text \<open>
  The mode lines that the metadata loop records are never empty: under these two keys
  the parser's metadata holds a key exactly when it holds a non-empty value.
\<close>

lemma git_metadata_loop_modes:
  "mode_values_nonempty md \<Longrightarrow> mode_values_nonempty (fst (git_metadata_loop lns i md))"
proof (induction lns i md rule: git_metadata_loop.induct)
  case (1 lns i md)
  show ?case
  proof (cases "i < length lns")
    case False
    then show ?thesis using 1(10) by (subst git_metadata_loop.simps) simp
  next
    case True
    have upd: "\<And>k v. k \<noteq> ''new_file_mode'' \<Longrightarrow> k \<noteq> ''deleted_file_mode'' \<Longrightarrow>
        mode_values_nonempty (md(k \<mapsto> v))"
      using 1(10) by (simp add: mode_values_nonempty_def has_key_def has_value_def)
    have updn: "startswith (lns ! i) (u ''new file mode '') \<Longrightarrow>
        mode_values_nonempty (md(''new_file_mode'' \<mapsto> PyStr (strip (lns ! i))))"
      using 1(10) strip_mode_line[of "lns ! i"]
      by (simp add: mode_values_nonempty_def has_key_def has_value_def)
    have updd: "startswith (lns ! i) (u ''deleted file mode '') \<Longrightarrow>
        mode_values_nonempty (md(''deleted_file_mode'' \<mapsto> PyStr (strip (lns ! i))))"
      using 1(10) strip_mode_line[of "lns ! i"]
      by (simp add: mode_values_nonempty_def has_key_def has_value_def)
    show ?thesis
      using True 1(1-9) 1(10) upd updn updd
      by (subst git_metadata_loop.simps) (simp del: fun_upd_apply)
  qed
qed

lemma mode_values_nonempty_init:
  "mode_values_nonempty [k \<mapsto> v]" if "k \<noteq> ''new_file_mode''" "k \<noteq> ''deleted_file_mode''"
  using that by (simp add: mode_values_nonempty_def has_key_def)

lemma mode_values_nonempty_empty: "mode_values_nonempty Map.empty"
  by (simp add: mode_values_nonempty_def has_key_def)

lemma parse_git_block_operation:
  assumes "parse_git_block lns = Some fp" and "\<not> is_binary fp"
  shows "operation fp = amended_operation (old_path fp) (new_path fp) (metadata fp)"
proof -
  let ?md0 = "[''diff_git'' \<mapsto> PyStr (hd lns)]"
  have m0: "mode_values_nonempty ?md0" by (rule mode_values_nonempty_init) simp_all
  obtain md old_hdr i1 where l: "git_metadata_loop lns 1 ?md0 = (md, old_hdr, i1)"
    by (cases "git_metadata_loop lns 1 ?md0") auto
  have m: "mode_values_nonempty md"
    using git_metadata_loop_modes[OF m0, of lns 1] l by simp
  from assms l show ?thesis
    by (auto simp: parse_git_block_def Let_def infer_amended[OF m]
             split: option.splits prod.splits if_splits)
qed

lemma parse_index_block_operation:
  assumes "parse_index_block lns ip = Some fp" and "\<not> is_binary fp"
  shows "operation fp = amended_operation (old_path fp) (new_path fp) (metadata fp)"
proof -
  have m: "mode_values_nonempty [''index_path'' \<mapsto> v]" for v
    by (rule mode_values_nonempty_init) simp_all
  from assms show ?thesis
    by (auto simp: parse_index_block_def Let_def infer_amended[OF m]
             split: option.splits prod.splits if_splits)
qed

lemma parse_classic_block_operation:
  assumes "parse_classic_block lns = Some fp" and "\<not> is_binary fp"
  shows "operation fp = amended_operation (old_path fp) (new_path fp) (metadata fp)"
  using assms
  by (auto simp: parse_classic_block_def Let_def infer_amended[OF mode_values_nonempty_empty]
           split: option.splits prod.splits if_splits list.splits)

lemmas parse_eval =
  parse_def parse_block_def parse_git_block_def parse_classic_block_def parse_index_block_def
  RE_DIFF_GIT_match_def binary_reason_of_def git_metadata_loop.simps find_header_from.simps
  parse_path_from_header_line_def path_or_devnull_def strip_prefix_ab_def DEV_NULL_def
  parse_hunks_from_def RE_HUNK_match_def re_opt_count_def NO_NEWLINE_MARKER_def add_line_def
  infer_operation_def md_get_def List.map_filter_def py_int_def isdecimal_def decimal_value_def
  decimal_zeros_def

lemmas normalize_eval =
  normalize_input_def normalize_text_def split_git_blocks_def split_index_blocks_def
  split_classic_blocks_def split_classic_loop.simps find_ppp.simps mk_block_def
  has_binary_indicator_def BIN_PATTERNS_def Let_def

lemma empty_rename_normalized:
  "normalize_input empty_rename_text =
     (empty_rename_text, DIALECT_GIT,
      [\<lparr>b_header = Diff_git (u ''diff --git a/x b/x''),
        b_text = empty_rename_text @ [LF], b_dialect = DIALECT_GIT, b_index_path = None,
        b_has_binary_indicator = Some False\<rparr>])"
  by (simp add: normalize_eval empty_rename_text_def string_eval)

subsection \<open>Line endings of a file\<close>

text \<open>Every CR LF pair holds an LF: the count of LF is at least the count of CR LF.\<close>

lemma lf_ge_crlf: "crlf_count data \<le> lf_count data"
  unfolding crlf_count_def lf_count_def
proof (induction data rule: length_induct)
  case (1 xs)
  show ?case
  proof (cases xs)
    case Nil
    then show ?thesis by simp
  next
    case (Cons c cs)
    show ?thesis
    proof (cases "c = CHR 0x0D \<and> (\<exists>r. cs = CHR 0x0A # r)")
      case True
      then obtain r where r: "cs = CHR 0x0A # r" by blast
      have "py_count r [CHR 0x0D, CHR 0x0A] \<le> py_count r [CHR 0x0A]" using 1 Cons r by simp
      with True Cons r show ?thesis by simp
    next
      case False
      have ih: "py_count cs [CHR 0x0D, CHR 0x0A] \<le> py_count cs [CHR 0x0A]"
        using 1 Cons by simp
      from False
      have "py_count (c # cs) [CHR 0x0D, CHR 0x0A] = py_count cs [CHR 0x0D, CHR 0x0A]"
        by (cases cs) auto
      with ih Cons show ?thesis by (cases "c = CHR 0x0A") auto
    qed
  qed
qed

lemmas hunks_eval =
  locate_eval string_eval apply_hunk_at_def count_tag_def hunk_applied_def initial_state_def
  example_fp_def hunk_one_def hunk_two_def hunk_ctx_a_def hunk_add_x_def example_buffer_def
  example_opts_def

subsection \<open>The round trip example\<close>

lemmas preview_eval =
  preview_apply_def preflight_def preflight_one_def preflight_checks_def blocking_records_def
  invalid_name_def new_result_def add_log_def set_per_file_def entry_def empty_summary_def
  apply_filepatch_in_memory_def fold_newlines_def original_lines_of_def
  build_mismatch_diag_def add_detail_def set_failed_def conflict_fallback_def
  toy_env_def DEV_NULL_def

lemma example_opts_fields:
  "strict_filename_match example_opts = False"
  "best_effort_fuzzy_apply example_opts = False"
  "conflict_marker_mode example_opts = False"
  "partial_apply_per_file_override example_opts = False"
  "skip_unsupported_binary_files example_opts = True"
  "allow_writing_conflicted_output example_opts = False"
  "allow_rename_delete_mode_changes example_opts = False"
  by (simp_all add: example_opts_def)

lemma data_fp_fields:
  "old_path data_fp = u ''data.json''" "new_path data_fp = u ''data.json''"
  "display_path data_fp = u ''data.json''" "operation data_fp = Modify"
  "hunks data_fp = [data_hunk]" "is_binary data_fp = False"
  by (simp_all add: data_fp_def)

lemma reparsed_fp_fields:
  "old_path reparsed_fp = u ''data.json''" "new_path reparsed_fp = u ''data.json''"
  "display_path reparsed_fp = u ''data.json''" "operation reparsed_fp = Modify"
  "hunks reparsed_fp = [glued_hunk]" "is_binary reparsed_fp = False"
  by (simp_all add: reparsed_fp_def)

lemma data_read: "read_text (data_env w) (u ''/w/data.json'') = Inr data_baseline"
  by (simp add: data_env_def toy_env_def u_def)

lemma data_report:
  "preflight (data_env w) data_patchset (Some (u ''/w'')) example_opts =
     [\<lparr>r_file = u ''data.json'', r_operation = Modify, r_resolved = u ''/w/data.json'',
       r_status = Found, r_suggested = [], r_filepatch = data_fp\<rparr>]"
  by (simp add: preview_eval data_env_def data_patchset_def data_fp_fields example_opts_def
        string_eval Let_def)

lemma data_in_memory:
  "apply_filepatch_in_memory data_fp (Inr data_baseline) example_opts =
     Inr (data_output, \<lparr>hunks_applied = 1, lines_added = 1, lines_removed = 1\<rparr>,
          \<lparr>failed = False, conflicted = False, details = []\<rparr>)"
  by (simp add: preview_eval data_fp_fields data_hunk_def data_baseline_def data_output_def
        hunks_eval)

lemma data_preview:
  "success (preview_apply (data_env w) data_patchset (u ''/w'') example_opts) \<and>
   s_failed_files (summary (preview_apply (data_env w) data_patchset (u ''/w'') example_opts))
     = Some [] \<and>
   s_conflicted_files (summary (preview_apply (data_env w) data_patchset (u ''/w'') example_opts))
     = Some [] \<and>
   s_outputs (summary (preview_apply (data_env w) data_patchset (u ''/w'') example_opts)) =
     Some [u ''data.json'' \<mapsto> data_output]"
  unfolding preview_apply_def data_report
  by (simp add: blocking_records_def Let_def data_read data_in_memory new_result_def add_log_def
        set_per_file_def entry_def empty_summary_def example_opts_fields data_fp_fields)

lemma data_generate:
  "generate_unified_patchset selftest_matcher [u ''data.json'' \<mapsto> data_baseline]
     [u ''data.json'' \<mapsto> data_output] data_patchset = data_generated"
  by (simp add: generate_unified_patchset_def generate_unified_for_file_def unified_diff_def
        group_lines_def opcode_lines_def py_slice_def format_range_unified_def py_str_int_def
        nat_digits.simps diff_lines_of_def fold_newlines_def map_get_def end_with_newline_def
        selftest_matcher_def data_patchset_def data_fp_fields data_baseline_def data_output_def
        data_generated_def DEV_NULL_def string_eval Let_def)

lemma generated_normalized:
  "normalize_input data_generated =
     (data_generated, DIALECT_CLASSIC,
      [\<lparr>b_header = Classic_header, b_text = data_generated @ [LF], b_dialect = DIALECT_CLASSIC,
        b_index_path = None, b_has_binary_indicator = Some False\<rparr>])"
  by (simp add: normalize_eval data_generated_def string_eval)

lemma generated_parsed:
  "parse (fst (snd (normalize_input data_generated))) (snd (snd (normalize_input data_generated)))
     = \<lparr>dialect = DIALECT_CLASSIC, files = [reparsed_fp]\<rparr>"
  unfolding generated_normalized
  by (simp add: parse_eval data_generated_def reparsed_fp_def glued_hunk_def Let_def string_eval)

lemma reparsed_report:
  "preflight (data_env w) \<lparr>dialect = DIALECT_CLASSIC, files = [reparsed_fp]\<rparr> (Some (u ''/w''))
     example_opts =
     [\<lparr>r_file = u ''data.json'', r_operation = Modify, r_resolved = u ''/w/data.json'',
       r_status = Found, r_suggested = [], r_filepatch = reparsed_fp\<rparr>]"
  by (simp add: preview_eval data_env_def reparsed_fp_fields example_opts_def
        string_eval Let_def)

lemma reparsed_in_memory:
  "\<exists>t st d. apply_filepatch_in_memory reparsed_fp (Inr data_baseline) example_opts =
      Inr (t, st, \<lparr>failed = True, conflicted = False, details = d\<rparr>)"
  by (simp add: preview_eval reparsed_fp_fields glued_hunk_def data_baseline_def hunks_eval)

lemma reparsed_preview:
  "\<not> success (preview_apply (data_env w) \<lparr>dialect = DIALECT_CLASSIC, files = [reparsed_fp]\<rparr>
                 (u ''/w'') example_opts) \<and>
   s_failed_files (summary (preview_apply (data_env w)
       \<lparr>dialect = DIALECT_CLASSIC, files = [reparsed_fp]\<rparr> (u ''/w'') example_opts)) =
     Some [u ''data.json''] \<and>
   s_outputs (summary (preview_apply (data_env w)
       \<lparr>dialect = DIALECT_CLASSIC, files = [reparsed_fp]\<rparr> (u ''/w'') example_opts)) =
     Some Map.empty"
proof -
  obtain t st d where m:
    "apply_filepatch_in_memory reparsed_fp (Inr data_baseline) example_opts =
       Inr (t, st, \<lparr>failed = True, conflicted = False, details = d\<rparr>)"
    using reparsed_in_memory by blast
  show ?thesis
    unfolding preview_apply_def reparsed_report
    by (simp add: blocking_records_def Let_def data_read m new_result_def add_log_def
        set_per_file_def entry_def empty_summary_def example_opts_fields reparsed_fp_fields)
qed

subsection \<open>The backup folder of the disk apply\<close>

text \<open>
  Whenever preflight does not block, the preview's conflicts do not block and the
  creation of the backup session folder raises, that exception is what
  \<open>apply_to_disk\<close> ends with.
\<close>

lemma apply_to_disk_mkdir_escapes:
  assumes "blocking_records (preflight env ps (Some root_folder) opts)
             (skip_unsupported_binary_files opts) = []"
    and "allow_writing_conflicted_output opts \<or>
         (case preview of
            None \<Rightarrow> []
          | Some pv \<Rightarrow> (case s_conflicted_files (summary pv) of None \<Rightarrow> [] | Some c \<Rightarrow> c)) = []"
    and "mkdir_backup_root env (resolve_root env root_folder) = Inl e"
  shows "apply_to_disk env per_file_loop ps root_folder preview opts = Inl e"
  using assms by (auto simp: apply_to_disk_def Let_def)

section \<open>The claims\<close>

subsection \<open>C1: round trip\<close>

text \<open>
  C1 does not hold of the code. Applying \<open>data_patchset\<close> to \<open>data.json\<close> in preview
  succeeds, with no failed and no conflicted file, and yields the changed line. The
  generator then returns a text in which the content lines of the hunk stand on one
  line: it asks \<open>difflib\<close> for lines ending in a line feed and passes lines without
  one. Normalized and parsed, this text gives one hunk whose only deletion line is the
  old line glued to the new one; applied to the same file, the preview fails and yields
  no output for the file.
\<close>

theorem round_trip_fails:
  "success (preview_apply (data_env True) data_patchset (u ''/w'') example_opts) \<and>
   s_failed_files (summary (preview_apply (data_env True) data_patchset (u ''/w'') example_opts))
     = Some [] \<and>
   s_conflicted_files (summary (preview_apply (data_env True) data_patchset (u ''/w'')
                                  example_opts)) = Some [] \<and>
   s_outputs (summary (preview_apply (data_env True) data_patchset (u ''/w'') example_opts)) =
     Some [u ''data.json'' \<mapsto> data_output] \<and>
   generate_unified_patchset selftest_matcher [u ''data.json'' \<mapsto> data_baseline]
     [u ''data.json'' \<mapsto> data_output] data_patchset = data_generated \<and>
   parse (fst (snd (normalize_input data_generated))) (snd (snd (normalize_input data_generated)))
     = \<lparr>dialect = DIALECT_CLASSIC, files = [reparsed_fp]\<rparr> \<and>
   \<not> success (preview_apply (data_env True)
                 (parse (fst (snd (normalize_input data_generated)))
                        (snd (snd (normalize_input data_generated))))
                 (u ''/w'') example_opts) \<and>
   s_failed_files (summary (preview_apply (data_env True)
                 (parse (fst (snd (normalize_input data_generated)))
                        (snd (snd (normalize_input data_generated))))
                 (u ''/w'') example_opts)) = Some [u ''data.json''] \<and>
   s_outputs (summary (preview_apply (data_env True)
                 (parse (fst (snd (normalize_input data_generated)))
                        (snd (snd (normalize_input data_generated))))
                 (u ''/w'') example_opts)) = Some Map.empty"
  using data_preview[of True] data_generate reparsed_preview[of True]
  unfolding generated_parsed by (intro conjI) simp_all

subsection \<open>C2: no exception leaves preview and apply\<close>

text \<open>
  C2 does not hold of the code for \<open>apply_to_disk\<close>. The preview of \<open>data_patchset\<close>
  succeeded without conflicts and preflight finds the file, but the backup session
  folder cannot be created: the exception of \<open>backup_root.mkdir\<close> leaves
  \<open>apply_to_disk\<close>, whatever the loop over the files would do, and no \<open>ApplyResult\<close> is
  returned.
\<close>

theorem apply_to_disk_raises:
  "apply_to_disk (data_env False) per_file_loop data_patchset (u ''/w'')
     (Some (preview_apply (data_env False) data_patchset (u ''/w'') example_opts)) example_opts
   = Inl (PyExc (u ''[Errno 20] Not a directory: .patchstudio_backups''))"
  unfolding apply_to_disk_def data_report
  using data_preview[of False]
  by (simp add: blocking_records_def Let_def example_opts_fields data_env_def toy_env_def)

subsection \<open>C3: offset accounting\<close>

text \<open>
  C3. While the hunks of a file patch are applied in order, take the state of the loop
  after the first \<open>k\<close> hunks. If the loop has not returned with a failure and no hunk
  fell back to conflict markers, so that each of the \<open>k\<close> hunks was applied, then
  \<open>line_offset\<close> is the sum over these hunks of the number of their \<open>+\<close> lines minus
  the number of their \<open>-\<close> lines, and the loop has counted each of them as applied.
  (By \<open>hunks_loop_append\<close> the loop over all hunks continues from exactly this state.)
\<close>

theorem offset_accounting:
  assumes "st = hunks_loop opts 0 (take k (hunks fp)) (initial_state original_lines)"
    and "\<not> failed (diagnostics st)"
    and "\<not> conflicted (diagnostics st)"
  shows "line_offset st =
           (\<Sum>h\<leftarrow>take k (hunks fp). count_tag (lines h) (u ''+'') - count_tag (lines h) (u ''-''))
         \<and> hunks_applied (stats st) = int (length (take k (hunks fp)))"
  using offset_loop[of opts 0 "take k (hunks fp)" "initial_state original_lines"] assms
  by (simp add: initial_state_def hunk_delta_def)

theorem offset_accounting_witness:
  "\<not> failed (diagnostics (hunks_loop example_opts 0 (take 2 (hunks example_fp))
                              (initial_state example_buffer))) \<and>
   \<not> conflicted (diagnostics (hunks_loop example_opts 0 (take 2 (hunks example_fp))
                                  (initial_state example_buffer))) \<and>
   line_offset (hunks_loop example_opts 0 (take 2 (hunks example_fp))
                  (initial_state example_buffer)) = (3 - 1) + (1 - 2)"
proof -
  let ?st = "hunks_loop example_opts 0 (take 2 (hunks example_fp)) (initial_state example_buffer)"
  have run: "?st =
    \<lparr>out_lines = [u ''a'', u ''x'', u ''y'', u ''b'', u ''b'', u ''a''], line_offset = 1,
     stats = \<lparr>hunks_applied = 2, lines_added = 2, lines_removed = 1\<rparr>,
     diagnostics = \<lparr>failed = False, conflicted = False, details = []\<rparr>\<rparr>"
    by (simp add: hunks_eval)
  have f: "\<not> failed (diagnostics ?st)" and c: "\<not> conflicted (diagnostics ?st)"
    by (simp_all add: run)
  have "line_offset ?st =
      (\<Sum>h\<leftarrow>take 2 (hunks example_fp).
          count_tag (lines h) (u ''+'') - count_tag (lines h) (u ''-''))"
    by (rule offset_accounting[OF refl f c, THEN conjunct1])
  also have "\<dots> = (3 - 1) + (1 - 2)"
    by (simp add: example_fp_def hunk_one_def hunk_two_def count_tag_def u_def)
  finally show ?thesis using f c by simp
qed

subsection \<open>C4: fuzzy location\<close>

text \<open>
  C4. Fuzzy search is enabled and the anchors do not match at the clamped position
  \<open>pos = min(max(expected_pos, 0), len(buffer))\<close>. Then the locator reports no match
  exactly when no position of the window from \<open>max(0, pos - window)\<close> to
  \<open>min(len(buffer), pos + window)\<close> matches the anchors; otherwise the position it
  returns is such a match, and against every match \<open>q\<close> of the window it is strictly
  closer to \<open>pos\<close>, or equally close and not larger: it is the least under the
  lexicographic order on \<open>(|p - pos|, p)\<close>.
\<close>

theorem fuzzy_location:
  assumes "pos = min (max expected_pos 0) (int (length lns))"
    and "\<not> hunk_anchors_match lns h pos ignore_ws"
  shows "(fst (locate_hunk_position lns h expected_pos ignore_ws True w) = None
            \<longleftrightarrow> window_matches lns h pos ignore_ws w = {})
       \<and> (\<forall>r. fst (locate_hunk_position lns h expected_pos ignore_ws True w) = Some r \<longrightarrow>
             r \<in> window_matches lns h pos ignore_ws w \<and>
             (\<forall>q \<in> window_matches lns h pos ignore_ws w.
                 \<bar>r - pos\<bar> < \<bar>q - pos\<bar> \<or> (\<bar>r - pos\<bar> = \<bar>q - pos\<bar> \<and> r \<le> q)))"
proof -
  let ?C = "fuzzy_candidates lns h pos ignore_ws w"
  let ?m = "hd (sort_key (\<lambda>x. (\<bar>x - pos\<bar>, x)) ?C)"
  have loc: "fst (locate_hunk_position lns h expected_pos ignore_ws True w) =
        (if ?C = [] then None else Some ?m)"
    using assms by (simp add: locate_hunk_position_def Let_def)
  have e: "?C = [] \<longleftrightarrow> window_matches lns h pos ignore_ws w = {}"
    using set_fuzzy_candidates[of lns h pos ignore_ws w] by (metis set_empty)
  show ?thesis
  proof (cases "?C = []")
    case True
    then show ?thesis using loc e by simp
  next
    case False
    from hd_sort_key_min[OF False, of "\<lambda>x. (\<bar>x - pos\<bar>, x)"]
    have m: "?m \<in> set ?C" and le: "\<forall>y\<in>set ?C. (\<bar>?m - pos\<bar>, ?m) \<le> (\<bar>y - pos\<bar>, y)"
      by auto
    from le have "\<forall>q\<in>set ?C. \<bar>?m - pos\<bar> < \<bar>q - pos\<bar> \<or> (\<bar>?m - pos\<bar> = \<bar>q - pos\<bar> \<and> ?m \<le> q)"
      by (auto simp: less_eq_prod_def)
    then show ?thesis
      using False loc e m set_fuzzy_candidates[of lns h pos ignore_ws w] by auto
  qed
qed

theorem fuzzy_location_witness:
  "(2::int) = min (max 2 0) (int (length example_buffer)) \<and>
   \<not> hunk_anchors_match example_buffer hunk_ctx_a 2 False \<and>
   fst (locate_hunk_position example_buffer hunk_ctx_a 2 False True 3) = Some 0 \<and>
   0 \<in> window_matches example_buffer hunk_ctx_a 2 False 3 \<and>
   4 \<in> window_matches example_buffer hunk_ctx_a 2 False 3 \<and>
   \<bar>0 - 2\<bar> = \<bar>4 - (2::int)\<bar>"
proof -
  have p: "(2::int) = min (max 2 0) (int (length example_buffer))"
    by (simp add: example_buffer_def)
  have n: "\<not> hunk_anchors_match example_buffer hunk_ctx_a 2 False"
    by (simp add: hunks_eval)
  have l: "fst (locate_hunk_position example_buffer hunk_ctx_a 2 False True 3) = Some 0"
    by (simp add: hunks_eval)
  have z: "0 \<in> window_matches example_buffer hunk_ctx_a 2 False 3"
    using fuzzy_location[OF p n, of 3] l by simp
  have f: "4 \<in> window_matches example_buffer hunk_ctx_a 2 False 3"
    by (simp add: window_matches_def hunks_eval)
  show ?thesis using p n l z f by simp
qed

subsection \<open>C5: the line ending of a disk write\<close>

text \<open>
  C5, as amended. For a create or modify disk write the chosen line ending is CR LF
  exactly when \<open>preserve_original_line_endings\<close> is true, a file exists at the target,
  its bytes can be read, they hold at least one CR LF, and
  count(CRLF) \<open>\<ge>\<close> count(LF) - count(CRLF); in every other case it is LF.
\<close>

theorem eol_choice:
  "(write_eol env opts target = CRLF \<longleftrightarrow>
      preserve_original_line_endings opts \<and> path_exists env target \<and>
      (\<exists>data. read_bytes env (path_str env target) = Inr data \<and>
         crlf_count data > 0 \<and> crlf_count data \<ge> lf_count data - crlf_count data)) \<and>
   (write_eol env opts target \<noteq> CRLF \<longleftrightarrow> write_eol env opts target = [LF])"
  by (auto simp: write_eol_def detect_eol_def Let_def CRLF_def crlf_count_def lf_count_def
        CR_def LF_def split: sum.splits)

text \<open>
  C5 as stated fails for an existing file without any line ending, here the empty
  file: count(CRLF) \<open>\<ge>\<close> count(LF) - count(CRLF) holds as 0 \<open>\<ge>\<close> 0, and the code
  chooses LF.
\<close>

theorem eol_choice_counterexample:
  "preserve_original_line_endings example_opts \<and>
   path_exists (toy_env [(u ''/w/empty.txt'', [])] True) (u ''/w/empty.txt'') \<and>
   read_bytes (toy_env [(u ''/w/empty.txt'', [])] True) (u ''/w/empty.txt'') = Inr [] \<and>
   crlf_count [] \<ge> lf_count [] - crlf_count [] \<and>
   write_eol (toy_env [(u ''/w/empty.txt'', [])] True) example_opts (u ''/w/empty.txt'') = [LF]"
  by (simp add: toy_env_def write_eol_def detect_eol_def crlf_count_def lf_count_def
        example_opts_def u_def)

subsection \<open>C6: operation inference\<close>

text \<open>
  C6, as amended. For every file block that the parser turns into a file patch without
  binary indicator, with paths \<open>old_path\<close>, \<open>new_path\<close> and metadata \<open>M\<close>, the operation
  is decided by the first rule that applies: create if \<open>M\<close> contains \<open>new file mode\<close> or
  \<open>old_path\<close> is \<open>/dev/null\<close>; else delete if \<open>M\<close> contains \<open>deleted file mode\<close> or
  \<open>new_path\<close> is \<open>/dev/null\<close>; else rename if \<open>M\<close> holds a non-empty \<open>rename from\<close> or
  \<open>rename to\<close> value; else rename if the paths differ and neither is \<open>/dev/null\<close>;
  else modify.
\<close>

theorem operation_inference:
  assumes "parse_block d b = Some fp" and "\<not> is_binary fp"
  shows "operation fp = amended_operation (old_path fp) (new_path fp) (metadata fp)"
  using assms parse_git_block_operation parse_index_block_operation
    parse_classic_block_operation
  by (auto simp: parse_block_def Let_def split: if_splits)

theorem operation_inference_witness:
  "parse_block DIALECT_GIT create_block \<noteq> None \<and>
   \<not> is_binary (the (parse_block DIALECT_GIT create_block)) \<and>
   old_path (the (parse_block DIALECT_GIT create_block)) = u ''/dev/null'' \<and>
   new_path (the (parse_block DIALECT_GIT create_block)) = u ''new.txt'' \<and>
   operation (the (parse_block DIALECT_GIT create_block)) = Create \<and>
   amended_operation (old_path (the (parse_block DIALECT_GIT create_block)))
     (new_path (the (parse_block DIALECT_GIT create_block)))
     (metadata (the (parse_block DIALECT_GIT create_block))) = Create"
proof -
  let ?fp = "the (parse_block DIALECT_GIT create_block)"
  have ev: "parse_block DIALECT_GIT create_block \<noteq> None \<and> \<not> is_binary ?fp \<and>
            old_path ?fp = u ''/dev/null'' \<and> new_path ?fp = u ''new.txt'' \<and>
            operation ?fp = Create"
    by (simp add: create_block_def mk_block_def parse_eval string_eval Let_def)
  then have s: "parse_block DIALECT_GIT create_block = Some ?fp" by simp
  from ev have nb: "\<not> is_binary ?fp" by simp
  from operation_inference[OF s nb] ev show ?thesis by simp
qed

text \<open>
  C6 as stated fails on a git block with the line \<open>rename from\<close> and nothing after it:
  the metadata contains the key with an empty value, the paths are equal, the claim
  infers rename and the code modify.
\<close>

theorem operation_inference_counterexample:
  "map (\<lambda>fp. (operation fp, claimed_operation (old_path fp) (new_path fp) (metadata fp),
              is_binary fp, old_path fp, new_path fp))
     (files (parse (fst (snd (normalize_input empty_rename_text)))
                   (snd (snd (normalize_input empty_rename_text)))))
   = [(Modify, Rename, False, u ''x'', u ''x'')]"
  unfolding empty_rename_normalized
  by (simp add: parse_eval empty_rename_text_def claimed_operation_def has_key_def Let_def
        string_eval)

subsection \<open>C7: classic block splitting\<close>

text \<open>
  C7, as amended. For every input text split on LF, a line beginning with \<open>---\<close> and
  a space starts a new block if and only if a line beginning with \<open>+++\<close> and a space
  occurs within the next 59 lines (at an index \<open>j\<close> with \<open>i < j < i + 60\<close>) with no
  line between them beginning with \<open>@@\<close> and a space. The blocks are the segments of
  the line list from each such header line up to the next: every other line, a
  \<open>---\<close> line that is no header among them, is content of the block that is open,
  and the lines before the first header are in no block.
\<close>

theorem classic_block_splitting:
  "split_classic_blocks txt =
     map (classic_block_of (py_split txt LF))
       (segments (filter (is_file_header (py_split txt LF)) [0..<length (py_split txt LF)])
          (length (py_split txt LF)))"
  using classic_loop_inv[of 0 "py_split txt LF" "[]" "[]" No_header]
  by (simp add: split_classic_blocks_def)

theorem classic_block_splitting_witness:
  "split_classic_blocks two_files_text =
    [mk_block Classic_header
       [u ''--- a'', u ''+++ a'', u ''@@ -1 +1 @@'', u ''--- x'', u ''@@ -9 +8 @@'', u ''-y'']
       DIALECT_CLASSIC None,
     mk_block Classic_header [u ''--- b'', u ''+++ b'', u ''@@ -1 +1 @@'', u ''+z'']
       DIALECT_CLASSIC None] \<and>
   length (filter (is_file_header (py_split two_files_text LF))
             [0..<length (py_split two_files_text LF)]) = 2"
proof -
  have run: "split_classic_blocks two_files_text =
    [mk_block Classic_header
       [u ''--- a'', u ''+++ a'', u ''@@ -1 +1 @@'', u ''--- x'', u ''@@ -9 +8 @@'', u ''-y'']
       DIALECT_CLASSIC None,
     mk_block Classic_header [u ''--- b'', u ''+++ b'', u ''@@ -1 +1 @@'', u ''+z'']
       DIALECT_CLASSIC None]"
    unfolding split_classic_blocks_def two_split
    by (simp add: two_files_lines_def split_classic_loop.simps find_ppp.simps startswith_def
          u_def)
  have "length (split_classic_blocks two_files_text) =
     length (filter (is_file_header (py_split two_files_text LF))
             [0..<length (py_split two_files_text LF)])"
    by (subst classic_block_splitting) (simp add: length_segments)
  then show ?thesis using run by simp
qed

text \<open>
  C7 as stated fails when the \<open>+++\<close> line is the 60th line after the \<open>---\<close> line: it
  is within the next 60 lines and nothing stands between, so the claim starts a block,
  but the code looks at 59 lines only and emits no block at all.
\<close>

theorem classic_block_splitting_counterexample:
  "claimed_file_header (py_split far_text LF) 0 \<and> split_classic_blocks far_text = []"
proof -
  have "\<forall>k. 0 < k \<and> k < 60 \<longrightarrow> \<not> startswith (far_lines ! k) (u ''@@'')"
    using far_nth(2) by (simp add: startswith_def u_def)
  then have c: "claimed_file_header far_lines 0"
    unfolding claimed_file_header_def
    by (intro conjI exI[of _ 60]) (simp_all add: far_nth startswith_def u_def)
  have "filter (is_file_header far_lines) [0..<length far_lines] = []"
    using far_no_header by (auto simp: filter_empty_conv far_nth)
  then have "split_classic_blocks far_text = []"
    using classic_loop_inv[of 0 far_lines "[]" "[]" No_header]
    by (simp add: split_classic_blocks_def far_split segments_def)
  with c show ?thesis by (simp add: far_split)
qed

subsection \<open>C8: normalization steps\<close>

text \<open>
  C8, as amended. For every raw input, \<open>normalize\<close> first removes every leading BOM
  character (not only one), then replaces every CR LF pair by LF, then every remaining
  CR by LF.
\<close>

theorem normalization_steps:
  "fst (normalize_input raw) = fold_cr (fold_crlf (dropWhile (\<lambda>c. c = BOM) raw))"
  by (simp add: normalize_input_def Let_def normalize_text_def replace_crlf replace_cr
        strip_bom_all)

text \<open>
  C8 as stated fails on an input with two leading BOM characters: the claim keeps the
  second one, the code removes both.
\<close>

theorem normalization_one_bom_counterexample:
  "fst (normalize_input [BOM, BOM, 120]) \<noteq> fold_cr (fold_crlf (strip_one_bom [BOM, BOM, 120]))"
  by (simp add: normalize_input_def Let_def normalize_text_def startswith_def lstrip_chars_def
        strip_one_bom_def fold_cr_def BOM_def CR_def LF_def)

subsection \<open>C9: insertion-only hunks\<close>

text \<open>
  C9. For every buffer and every hunk without context and deletion lines, the anchor
  sequence is empty, the anchors match at every position, and the locator returns the
  clamped expected position \<open>min(max(expected_pos, 0), len(buffer))\<close> in strict mode,
  whatever the buffer holds and whether fuzzy search is on or off; so it never reports
  that the hunk could not be located.
\<close>

theorem insertion_only_located:
  assumes "insertion_only h"
  shows "anchor_seq h = [] \<and>
         (\<forall>p. hunk_anchors_match lns h p ignore_ws) \<and>
         fst (locate_hunk_position lns h expected_pos ignore_ws fuzzy fuzzy_window)
           = Some (min (max expected_pos 0) (int (length lns))) \<and>
         d_mode (snd (locate_hunk_position lns h expected_pos ignore_ws fuzzy fuzzy_window))
           = Strict"
  using anchor_seq_insertion_only[OF assms]
  by (simp add: hunk_anchors_match_def locate_hunk_position_def Let_def)

theorem insertion_only_located_witness:
  "insertion_only hunk_add_x \<and>
   fst (locate_hunk_position example_buffer hunk_add_x 8 False False 200) = Some 5"
proof -
  have i: "insertion_only hunk_add_x"
    by (simp add: insertion_only_def hunk_add_x_def u_def)
  show ?thesis
    using i insertion_only_located[OF i, of example_buffer False 8 False 200]
    by (simp add: example_buffer_def)
qed

subsection \<open>C10: applying one hunk is atomic\<close>

text \<open>
  C10. Applying one hunk at a position changes no list that exists, in particular not
  the input list. It either succeeds: the result is a new list, made of the lines
  before the position, the hunk's lines read against the buffer (each context and
  deletion line verified against the buffer, context kept, deletions dropped,
  additions inserted) and the lines after the anchors, with delta equal to the
  additions minus the deletions of the hunk. Or it fails, at the first context or
  deletion line that does not match or lies past the end of the buffer, and returns
  the input list itself, unchanged, with delta 0. It succeeds exactly when the anchors
  match at the position. The store version and the function on values return the same.
\<close>

theorem apply_hunk_at_atomic:
  assumes "a < length hp"
    and "apply_hunk_at_heap hp a h pos ws = ((ok, r, delta, mm), hp')"
  shows "take (length hp) hp' = hp \<and>
         (ok, hp' ! r, delta, mm) = apply_hunk_at (hp ! a) h pos ws \<and>
         (if ok
          then r = length hp \<and> anchors_loop (hp ! a) pos (anchor_seq h) ws \<and>
               hp' ! r = take pos (hp ! a) @ patched (hp ! a) pos (lines h) @
                         drop (pos + length (anchor_seq h)) (hp ! a) \<and>
               delta = hunk_delta h \<and> mm = None
          else r = a \<and> hp' ! r = hp ! a \<and> delta = 0 \<and>
               (\<exists>e j. mm = Some e \<and> j < length (anchor_seq h) \<and>
                  anchors_loop (hp ! a) pos (take j (anchor_seq h)) ws \<and>
                  mismatch_at e = pos + j \<and>
                  (pos + j \<ge> length (hp ! a) \<or>
                   normalize_match_line (snd (anchor_seq h ! j)) ws \<noteq>
                     normalize_match_line (hp ! a ! (pos + j)) ws)))"
proof -
  note rel = heap_at_rel[OF assms]
  have t: "take (length hp) hp' = hp"
    by (rule rel[THEN conjunct1])
  have v: "(ok, hp' ! r, delta, mm) = apply_hunk_at (hp ! a) h pos ws"
    by (rule rel[THEN conjunct2, THEN conjunct2, THEN conjunct1])
  have r: "r = (if ok then length hp else a)"
    by (rule rel[THEN conjunct2, THEN conjunct2, THEN conjunct2])
  from apply_hunk_at_cases[of "hp ! a" pos h ws] v r
  have "if ok
        then r = length hp \<and> anchors_loop (hp ! a) pos (anchor_seq h) ws \<and>
             hp' ! r = take pos (hp ! a) @ patched (hp ! a) pos (lines h) @
                       drop (pos + length (anchor_seq h)) (hp ! a) \<and>
             delta = hunk_delta h \<and> mm = None
        else r = a \<and> hp' ! r = hp ! a \<and> delta = 0 \<and>
             (\<exists>e j. mm = Some e \<and> j < length (anchor_seq h) \<and>
                anchors_loop (hp ! a) pos (take j (anchor_seq h)) ws \<and>
                mismatch_at e = pos + j \<and>
                (pos + j \<ge> length (hp ! a) \<or>
                 normalize_match_line (snd (anchor_seq h ! j)) ws \<noteq>
                   normalize_match_line (hp ! a ! (pos + j)) ws))"
    by (cases ok) auto
  with t v show ?thesis by simp
qed

theorem apply_hunk_at_atomic_witness:
  "(0::nat) < length [example_buffer] \<and>
   apply_hunk_at_heap [example_buffer] 0 hunk_one 0 False =
     ((True, 1, 2, None),
      [example_buffer, [u ''a'', u ''x'', u ''y'', u ''b'', u ''c'', u ''b'', u ''a'']]) \<and>
   apply_hunk_at example_buffer hunk_one 0 False =
     (True, [u ''a'', u ''x'', u ''y'', u ''b'', u ''c'', u ''b'', u ''a''], 2, None) \<and>
   apply_hunk_at_heap [example_buffer] 0 hunk_two 0 False =
     ((False, 0, 0, Some (Deletion_mismatch 0 (u ''c'') (u ''a''))), [example_buffer, []]) \<and>
   apply_hunk_at example_buffer hunk_two 0 False =
     (False, example_buffer, 0, Some (Deletion_mismatch 0 (u ''c'') (u ''a'')))"
proof -
  have l: "(0::nat) < length [example_buffer]" by simp
  have ok: "apply_hunk_at_heap [example_buffer] 0 hunk_one 0 False =
     ((True, 1, 2, None),
      [example_buffer, [u ''a'', u ''x'', u ''y'', u ''b'', u ''c'', u ''b'', u ''a'']])"
    by (simp add: apply_hunk_at_heap_def hunks_eval)
  have bad: "apply_hunk_at_heap [example_buffer] 0 hunk_two 0 False =
     ((False, 0, 0, Some (Deletion_mismatch 0 (u ''c'') (u ''a''))), [example_buffer, []])"
    by (simp add: apply_hunk_at_heap_def hunks_eval)
  have "(True, [example_buffer, [u ''a'', u ''x'', u ''y'', u ''b'', u ''c'', u ''b'', u ''a'']] ! 1,
         2, None) = apply_hunk_at ([example_buffer] ! 0) hunk_one 0 False"
    by (rule apply_hunk_at_atomic[OF l ok, THEN conjunct2, THEN conjunct1])
  then have ok': "apply_hunk_at example_buffer hunk_one 0 False =
     (True, [u ''a'', u ''x'', u ''y'', u ''b'', u ''c'', u ''b'', u ''a''], 2, None)"
    by simp
  have "(False, [example_buffer, []] ! 0, 0, Some (Deletion_mismatch 0 (u ''c'') (u ''a''))) =
          apply_hunk_at ([example_buffer] ! 0) hunk_two 0 False"
    by (rule apply_hunk_at_atomic[OF l bad, THEN conjunct2, THEN conjunct1])
  then have bad': "apply_hunk_at example_buffer hunk_two 0 False =
     (False, example_buffer, 0, Some (Deletion_mismatch 0 (u ''c'') (u ''a'')))"
    by simp
  show ?thesis using l ok bad ok' bad' by (intro conjI)
qed

end
